theory Spec2Isabelle
  imports Main "HOL-Library.Word"
begin

unbundle bit_operations_syntax

section \<open>The AIFF decoder of mattetti/exp: data model\<close>

text \<open>
  The package \<^verbatim>\<open>audio\<close> holds the extended-float decoder \<^verbatim>\<open>IeeeFloatToInt\<close>; the package
  \<^verbatim>\<open>aiff\<close> holds the decoder in two revisions of \<^verbatim>\<open>decoder.go\<close>: the first skips chunks
  with \<^verbatim>\<open>jumpTo\<close>, the second through \<^verbatim>\<open>dispatchToChan\<close>. Both are embedded below.
\<close>

type_synonym byte = "8 word"

subsection \<open>The extended-float decoder (package audio)\<close>

text \<open>
  \<^verbatim>\<open>[10]byte\<close> is a list of bytes read with \<open>!\<close>; every theorem about it assumes the
  length 10 that the Go type guarantees. \<^verbatim>\<open>i\<close> is a \<^verbatim>\<open>uint32\<close>, so the mantissa is composed
  in \<open>32 word\<close>; the shift count \<^verbatim>\<open>29 - uint32(b[1])\<close> is \<^verbatim>\<open>uint32\<close> arithmetic too. The
  result \<^verbatim>\<open>int(i)\<close> is the unsigned value of \<^verbatim>\<open>i\<close>.
\<close>

text \<open>The condition of the first \<^verbatim>\<open>if\<close>, commented \<^verbatim>\<open>// Negative number\<close> in the source.\<close>

definition negative_number :: "byte list \<Rightarrow> bool" where
  "negative_number b = ((b ! 0 AND 0x80) = 1)"

definition mantissa :: "byte list \<Rightarrow> 32 word" where
  "mantissa b =
     (push_bit 23 (ucast (b ! 2)) OR push_bit 15 (ucast (b ! 3))
        OR push_bit 7 (ucast (b ! 4)) OR drop_bit 1 (ucast (b ! 5)))"

definition IeeeFloatToInt :: "byte list \<Rightarrow> int" where
  "IeeeFloatToInt b =
     (if negative_number b then 0
      else if b ! 0 \<le> 0x3F then 1
      else if b ! 0 > 0x40 then 67108864
      else if b ! 0 = 0x40 \<and> b ! 1 > 0x1C then 800000000
      else uint (drop_bit (unat (29 - ucast (b ! 1) :: 32 word)) (mantissa b)))"

subsection \<open>The stream\<close>

text \<open>
  \<^verbatim>\<open>Decode\<close> takes an \<^verbatim>\<open>io.ReadSeeker\<close>. The model is the in-memory reader
  (\<^verbatim>\<open>bytes.Reader\<close>, a file): the bytes and the current offset. The decoder's field
  \<^verbatim>\<open>d.r\<close> and the parameter \<^verbatim>\<open>r\<close> of \<^verbatim>\<open>Decode\<close> are the same reader, so one stream is
  passed through every function and returned updated.
\<close>

record stream =
  content :: "byte list"
  offset :: nat

text \<open>
  The errors: \<^verbatim>\<open>io.EOF\<close>, \<^verbatim>\<open>io.ErrUnexpectedEOF\<close>, the format error
  \<^verbatim>\<open>fmt.Errorf("%s - %s", ErrFmtNotSupported, marker)\<close> with the marker it shows, a field
  error \<^verbatim>\<open>fmt.Errorf("... failed to parse - %s", err)\<close> with its message and the error it
  wraps, and the error of \<^verbatim>\<open>Duration\<close> on a \<^verbatim>\<open>nil\<close> decoder.
\<close>

datatype error =
    EOF
  | ErrUnexpectedEOF
  | ErrFmtNotSupported "byte list"
  | ParseFailed string error
  | NilPointer

text \<open>
  \<^verbatim>\<open>binary.Read\<close> of a value of \<open>n\<close> bytes is \<^verbatim>\<open>io.ReadFull\<close> on a buffer of \<open>n\<close> bytes:
  nothing left gives \<^verbatim>\<open>io.EOF\<close>, fewer than \<open>n\<close> bytes are consumed and give
  \<^verbatim>\<open>io.ErrUnexpectedEOF\<close>, and an empty buffer reads nothing and succeeds. The target
  variable is written only after a complete read.
\<close>

definition binary_Read :: "nat \<Rightarrow> stream \<Rightarrow> (error + byte list) \<times> stream" where
  "binary_Read n r =
     (let avail = length (content r) - offset r in
      if n = 0 then (Inr [], r)
      else if avail = 0 then (Inl EOF, r)
      else if avail < n then (Inl ErrUnexpectedEOF, r\<lparr>offset := length (content r)\<rparr>)
      else (Inr (take n (drop (offset r) (content r))), r\<lparr>offset := offset r + n\<rparr>))"

definition be_nat :: "byte list \<Rightarrow> nat" where
  "be_nat bs = foldl (\<lambda>a b. a * 256 + unat b) 0 bs"

definition uint16_be :: "byte list \<Rightarrow> 16 word" where
  "uint16_be bs = word_of_nat (be_nat bs)"

definition uint32_be :: "byte list \<Rightarrow> 32 word" where
  "uint32_be bs = word_of_nat (be_nat bs)"

text \<open>
  \<^verbatim>\<open>r.Seek(off, 1)\<close>: relative to the current offset; a negative target is an error, which
  \<^verbatim>\<open>Decode\<close> ignores, and leaves the offset where it was.
\<close>

definition Seek_current :: "int \<Rightarrow> stream \<Rightarrow> stream" where
  "Seek_current off r =
     (let p = int (offset r) + off in if p < 0 then r else r\<lparr>offset := nat p\<rparr>)"

text \<open>
  \<^verbatim>\<open>jumpTo\<close>: \<^verbatim>\<open>io.CopyN\<close> to \<^verbatim>\<open>ioutil.Discard\<close> consumes \<open>n\<close> bytes, or all that is left
  and then reports \<^verbatim>\<open>io.EOF\<close>. \<^verbatim>\<open>int\<close> has 64 bits, so \<^verbatim>\<open>int(size)\<close> is never negative.
\<close>

definition jumpTo :: "int \<Rightarrow> stream \<Rightarrow> error option \<times> stream" where
  "jumpTo bytesAhead r =
     (if bytesAhead > 0 then
        (if int (length (content r) - offset r) < bytesAhead
         then (Some EOF, r\<lparr>offset := max (offset r) (length (content r))\<rparr>)
         else (None, r\<lparr>offset := offset r + nat bytesAhead\<rparr>))
      else (None, r))"

subsection \<open>The decoder and the clip (package aiff)\<close>

text \<open>
  Modelled from the spec: the chunk identifiers \<^verbatim>\<open>formID\<close>, \<^verbatim>\<open>aiffID\<close>, \<^verbatim>\<open>aifcID\<close>,
  \<^verbatim>\<open>commID\<close> and \<^verbatim>\<open>ssndID\<close> are declared in a file of the package that is not among the
  sources; the spec gives them as the ASCII markers FORM, AIFF, AIFC, COMM and SSND.
\<close>

definition formID :: "byte list" where "formID = [0x46, 0x4F, 0x52, 0x4D]"
definition aiffID :: "byte list" where "aiffID = [0x41, 0x49, 0x46, 0x46]"
definition aifcID :: "byte list" where "aifcID = [0x41, 0x49, 0x46, 0x43]"
definition commID :: "byte list" where "commID = [0x43, 0x4F, 0x4D, 0x4D]"
definition ssndID :: "byte list" where "ssndID = [0x53, 0x53, 0x4E, 0x44]"

text \<open>
  What \<^verbatim>\<open>dispatchToChan\<close> sends (the struct \<^verbatim>\<open>Chunk\<close> is declared in a file that is not
  among the sources; these are the fields of the literal that \<^verbatim>\<open>dispatchToChan\<close> builds):
  the chunk's id and size and the reader as it stands at that moment. The consumer behind
  the channel is a function: given the id, the size and the reader, it leaves the reader as
  it is when the wait group is released. A consumer that never releases it is not modelled.
\<close>

datatype Chunk = Chunk (chunk_ID: "byte list") (chunk_Size: int) (chunk_R: stream)

type_synonym consumer = "byte list \<Rightarrow> int \<Rightarrow> stream \<Rightarrow> stream"

text \<open>
  The decoder of both revisions, without its reader (see above). \<^verbatim>\<open>Chan\<close> exists in the
  second revision only; no function of the first revision reads it.
\<close>

record Decoder =
  Chan :: "consumer option"
  ID :: "byte list"
  Size :: "32 word"
  Format :: "byte list"
  commSize :: "32 word"
  NumChans :: "16 word"
  NumSampleFrames :: "32 word"
  SampleSize :: "16 word"
  SampleRate :: int
  Encoding :: "byte list"
  EncodingName :: "byte list"

text \<open>\<^verbatim>\<open>&Decoder{r: r}\<close>: every other field has its zero value.\<close>

definition new_Decoder :: Decoder where
  "new_Decoder =
     \<lparr>Chan = None, ID = replicate 4 0, Size = 0, Format = replicate 4 0, commSize = 0,
      NumChans = 0, NumSampleFrames = 0, SampleSize = 0, SampleRate = 0,
      Encoding = replicate 4 0, EncodingName = []\<rparr>"

text \<open>
  The clip that \<^verbatim>\<open>Decode\<close> fills. The struct \<^verbatim>\<open>Clip\<close> is declared in a file that is not
  among the sources; its fields are the ones \<^verbatim>\<open>Decode\<close> assigns: \<^verbatim>\<open>r\<close> (here \<open>clip_r\<close>,
  \<^verbatim>\<open>nil\<close> until it is set), \<^verbatim>\<open>channels\<close>, \<^verbatim>\<open>bitDepth\<close>, \<^verbatim>\<open>sampleRate\<close> and \<^verbatim>\<open>size\<close>
  (here \<open>clip_size\<close>).
\<close>

record Clip =
  clip_r :: "stream option"
  channels :: int
  bitDepth :: int
  sampleRate :: int
  clip_size :: int

definition new_Clip :: Clip where
  "new_Clip = \<lparr>clip_r = None, channels = 0, bitDepth = 0, sampleRate = 0, clip_size = 0\<rparr>"

subsection \<open>readHeaders, parseCommChunk, iDnSize\<close>

definition readHeaders :: "Decoder \<Rightarrow> stream \<Rightarrow> error option \<times> Decoder \<times> stream" where
  "readHeaders d r =
     (case binary_Read 4 r of
        (Inl err, r1) \<Rightarrow> (Some err, d, r1)
      | (Inr b, r1) \<Rightarrow>
          let d1 = d\<lparr>ID := b\<rparr> in
          if ID d1 \<noteq> formID then (Some (ErrFmtNotSupported (ID d1)), d1, r1)
          else
            (case binary_Read 4 r1 of
               (Inl err, r2) \<Rightarrow> (Some err, d1, r2)
             | (Inr sb, r2) \<Rightarrow>
                 let d2 = d1\<lparr>Size := uint32_be sb\<rparr> in
                 (case binary_Read 4 r2 of
                    (Inl err, r3) \<Rightarrow> (Some err, d2, r3)
                  | (Inr fb, r3) \<Rightarrow>
                      let d3 = d2\<lparr>Format := fb\<rparr> in
                      if Format d3 \<noteq> aiffID \<and> Format d3 \<noteq> aifcID
                      then (Some (ErrFmtNotSupported (Format d3)), d3, r3)
                      else (None, d3, r3))))"

text \<open>The AIFC tail of \<^verbatim>\<open>parseCommChunk\<close>: encoding, then a Pascal string.\<close>

definition parseAifcTail :: "Decoder \<Rightarrow> stream \<Rightarrow> error option \<times> Decoder \<times> stream" where
  "parseAifcTail d r =
     (case binary_Read 4 r of
        (Inl err, r1) \<Rightarrow> (Some (ParseFailed ''AIFC encoding failed to parse'' err), d, r1)
      | (Inr eb, r1) \<Rightarrow>
          let d1 = d\<lparr>Encoding := eb\<rparr> in
          (case binary_Read 1 r1 of
             (Inl err, r2) \<Rightarrow> (Some (ParseFailed ''AIFC encoding failed to parse'' err), d1, r2)
           | (Inr lb, r2) \<Rightarrow>
               (case binary_Read (be_nat lb) r2 of
                  (Inl err, r3) \<Rightarrow>
                    (Some (ParseFailed ''AIFC encoding failed to parse'' err), d1, r3)
                | (Inr desc, r3) \<Rightarrow> (None, d1\<lparr>EncodingName := desc\<rparr>, r3))))"

definition parseCommChunk ::
  "32 word \<Rightarrow> Decoder \<Rightarrow> stream \<Rightarrow> error option \<times> Decoder \<times> stream" where
  "parseCommChunk sz d r =
     (let d0 = d\<lparr>commSize := sz\<rparr> in
      case binary_Read 2 r of
        (Inl err, r1) \<Rightarrow> (Some (ParseFailed ''num of channels failed to parse'' err), d0, r1)
      | (Inr cb, r1) \<Rightarrow>
          let d1 = d0\<lparr>NumChans := uint16_be cb\<rparr> in
          (case binary_Read 4 r1 of
             (Inl err, r2) \<Rightarrow>
               (Some (ParseFailed ''num of sample frames failed to parse'' err), d1, r2)
           | (Inr fb, r2) \<Rightarrow>
               let d2 = d1\<lparr>NumSampleFrames := uint32_be fb\<rparr> in
               (case binary_Read 2 r2 of
                  (Inl err, r3) \<Rightarrow>
                    (Some (ParseFailed ''sample size failed to parse'' err), d2, r3)
                | (Inr sb, r3) \<Rightarrow>
                    let d3 = d2\<lparr>SampleSize := uint16_be sb\<rparr> in
                    (case binary_Read 10 r3 of
                       (Inl err, r4) \<Rightarrow>
                         (Some (ParseFailed ''sample rate failed to parse'' err), d3, r4)
                     | (Inr srBytes, r4) \<Rightarrow>
                         let d4 = d3\<lparr>SampleRate := IeeeFloatToInt srBytes\<rparr> in
                         if Format d4 = aifcID then parseAifcTail d4 r4
                         else (None, d4, r4)))))"

text \<open>
  \<^verbatim>\<open>iDnSize\<close> (first revision) and \<^verbatim>\<open>IDnSize\<close> (second revision) have the same body. The
  second check is the source's \<^verbatim>\<open>err != err\<close>; \<^verbatim>\<open>blockSize\<close> keeps its zero value when
  its read fails.
\<close>

definition iDnSize :: "stream \<Rightarrow> (byte list \<times> 32 word \<times> error option) \<times> stream" where
  "iDnSize r =
     (case binary_Read 4 r of
        (Inl err, r1) \<Rightarrow> ((replicate 4 0, 0, Some err), r1)
      | (Inr ib, r1) \<Rightarrow>
          (case binary_Read 4 r1 of
             (Inl err, r2) \<Rightarrow>
               if err \<noteq> err then ((ib, 0, Some err), r2) else ((ib, 0, None), r2)
           | (Inr sb, r2) \<Rightarrow> ((ib, uint32_be sb, None), r2)))"

definition IDnSize :: "stream \<Rightarrow> (byte list \<times> 32 word \<times> error option) \<times> stream" where
  "IDnSize r =
     (case binary_Read 4 r of
        (Inl err, r1) \<Rightarrow> ((replicate 4 0, 0, Some err), r1)
      | (Inr ib, r1) \<Rightarrow>
          (case binary_Read 4 r1 of
             (Inl err, r2) \<Rightarrow>
               if err \<noteq> err then ((ib, 0, Some err), r2) else ((ib, 0, None), r2)
           | (Inr sb, r2) \<Rightarrow> ((ib, uint32_be sb, None), r2)))"

subsection \<open>Decode, first revision\<close>

text \<open>
  The state of the loop of \<^verbatim>\<open>Decode\<close>: the decoder, the reader, the clip and
  \<^verbatim>\<open>rewindBytes\<close> (an \<^verbatim>\<open>int64\<close>, read as signed). The outer \<^verbatim>\<open>err\<close> of
  \<^verbatim>\<open>for err != io.EOF\<close> is never assigned (the body declares its own \<^verbatim>\<open>err\<close>), so the
  condition always holds and is not part of the state.
\<close>

record loop_state =
  dec :: Decoder
  rd :: stream
  clip :: Clip
  rewindBytes :: "64 word"

datatype outcome = Return "error + Clip" | Next loop_state

text \<open>
  One pass through the body of the loop. A \<^verbatim>\<open>break\<close> inside a case of the \<^verbatim>\<open>switch\<close>
  leaves the \<^verbatim>\<open>switch\<close>, not the \<^verbatim>\<open>for\<close>: both such cases go on to the next pass. Only
  the \<^verbatim>\<open>break\<close> after a failed \<^verbatim>\<open>iDnSize\<close> leaves the loop, for \<^verbatim>\<open>clip.r = r\<close> and
  \<^verbatim>\<open>return clip, nil\<close>. The error of \<^verbatim>\<open>parseCommChunk\<close> and the results of \<^verbatim>\<open>Seek\<close> are
  dropped by the source.
\<close>

definition loop_body :: "loop_state \<Rightarrow> outcome" where
  "loop_body s =
     (case iDnSize (rd s) of
        ((id4, sz, Some err), r1) \<Rightarrow> Return (Inr ((clip s)\<lparr>clip_r := Some r1\<rparr>))
      | ((id4, sz, None), r1) \<Rightarrow>
          if id4 = commID then
            (case parseCommChunk sz (dec s) r1 of
               (e, d1, r2) \<Rightarrow>
                 let c1 = (clip s)\<lparr>channels := uint (NumChans d1),
                                   bitDepth := uint (SampleSize d1),
                                   sampleRate := SampleRate d1\<rparr> in
                 if sint (rewindBytes s) > 0
                 then Next (s\<lparr>dec := d1, rd := Seek_current (- sint (rewindBytes s)) r2,
                              clip := c1\<rparr>)
                 else Next (s\<lparr>dec := d1, rd := r2, clip := c1\<rparr>))
          else if id4 = ssndID then
            (let c1 = (clip s)\<lparr>clip_size := uint sz\<rparr> in
             if sampleRate c1 = 0 then
               (case jumpTo (uint sz) r1 of
                  (Some err, r2) \<Rightarrow> Return (Inl err)
                | (None, r2) \<Rightarrow>
                    Next (s\<lparr>rd := r2, clip := c1,
                            rewindBytes := rewindBytes s + ucast sz\<rparr>))
             else Next (s\<lparr>rd := r1, clip := c1\<rparr>))
          else
            (let rb = (if clip_size (clip s) \<noteq> 0 then rewindBytes s + ucast sz
                       else rewindBytes s) in
             case jumpTo (uint sz) r1 of
               (Some err, r2) \<Rightarrow> Return (Inl err)
             | (None, r2) \<Rightarrow> Next (s\<lparr>rd := r2, rewindBytes := rb\<rparr>)))"

text \<open>The loop, with fuel: \<open>None\<close> means that it has not left after that many passes.\<close>

fun traverse :: "nat \<Rightarrow> loop_state \<Rightarrow> (error + Clip) option" where
  "traverse 0 s = None"
| "traverse (Suc n) s =
     (case loop_body s of Return res \<Rightarrow> Some res | Next s' \<Rightarrow> traverse n s')"

definition Decode :: "nat \<Rightarrow> stream \<Rightarrow> (error + Clip) option" where
  "Decode fuel r =
     (case readHeaders new_Decoder r of
        (Some err, d, r1) \<Rightarrow> Some (Inl err)
      | (None, d, r1) \<Rightarrow>
          traverse fuel \<lparr>dec = d, rd = r1, clip = new_Clip, rewindBytes = 0\<rparr>)"

subsection \<open>Decode, second revision: dispatchToChan\<close>

text \<open>
  \<^verbatim>\<open>dispatchToChan\<close> returns its error, the reader, and the chunks it has sent on the
  channel (none or one). With a channel it sends the chunk and waits for the consumer.
\<close>

definition dispatchToChan ::
  "byte list \<Rightarrow> 32 word \<Rightarrow> Decoder \<Rightarrow> stream \<Rightarrow> error option \<times> stream \<times> Chunk list" where
  "dispatchToChan id4 sz d r =
     (case Chan d of
        None \<Rightarrow>
          (case jumpTo (uint sz) r of
             (Some err, r1) \<Rightarrow> (Some err, r1, [])
           | (None, r1) \<Rightarrow> (None, r1, []))
      | Some consume \<Rightarrow> (None, consume id4 (uint sz) r, [Chunk id4 (uint sz) r]))"

text \<open>
  The body of the loop in the second revision, with the chunks sent during the pass. Every
  error of \<^verbatim>\<open>dispatchToChan\<close> is dropped by the source.
\<close>

definition loop_body_chan :: "loop_state \<Rightarrow> outcome \<times> Chunk list" where
  "loop_body_chan s =
     (case IDnSize (rd s) of
        ((id4, sz, Some err), r1) \<Rightarrow> (Return (Inr ((clip s)\<lparr>clip_r := Some r1\<rparr>)), [])
      | ((id4, sz, None), r1) \<Rightarrow>
          if id4 = commID then
            (case parseCommChunk sz (dec s) r1 of
               (e, d1, r2) \<Rightarrow>
                 let c1 = (clip s)\<lparr>channels := uint (NumChans d1),
                                   bitDepth := uint (SampleSize d1),
                                   sampleRate := SampleRate d1\<rparr> in
                 if sint (rewindBytes s) > 0
                 then (Next (s\<lparr>dec := d1, rd := Seek_current (- sint (rewindBytes s)) r2,
                               clip := c1\<rparr>), [])
                 else (Next (s\<lparr>dec := d1, rd := r2, clip := c1\<rparr>), []))
          else if id4 = ssndID then
            (let c1 = (clip s)\<lparr>clip_size := uint sz\<rparr> in
             if sampleRate c1 = 0 then
               (case dispatchToChan id4 sz (dec s) r1 of
                  (e, r2, sent) \<Rightarrow>
                    (Next (s\<lparr>rd := r2, clip := c1,
                             rewindBytes := rewindBytes s + ucast sz\<rparr>), sent))
             else (Next (s\<lparr>rd := r1, clip := c1\<rparr>), []))
          else
            (let rb = (if clip_size (clip s) \<noteq> 0 then rewindBytes s + ucast sz
                       else rewindBytes s) in
             case dispatchToChan id4 sz (dec s) r1 of
               (e, r2, sent) \<Rightarrow> (Next (s\<lparr>rd := r2, rewindBytes := rb\<rparr>), sent)))"

fun traverse_chan :: "nat \<Rightarrow> loop_state \<Rightarrow> ((error + Clip) \<times> Chunk list) option" where
  "traverse_chan 0 s = None"
| "traverse_chan (Suc n) s =
     (case loop_body_chan s of
        (Return res, sent) \<Rightarrow> Some (res, sent)
      | (Next s', sent) \<Rightarrow>
          (case traverse_chan n s' of
             None \<Rightarrow> None
           | Some (res, sent') \<Rightarrow> Some (res, sent @ sent')))"

text \<open>\<^verbatim>\<open>Decode\<close> builds its decoder as \<^verbatim>\<open>&Decoder{r: r}\<close>: the channel is \<^verbatim>\<open>nil\<close>.\<close>

definition Decode_chan :: "nat \<Rightarrow> stream \<Rightarrow> ((error + Clip) \<times> Chunk list) option" where
  "Decode_chan fuel r =
     (case readHeaders new_Decoder r of
        (Some err, d, r1) \<Rightarrow> Some (Inl err, [])
      | (None, d, r1) \<Rightarrow>
          traverse_chan fuel \<lparr>dec = d, rd = r1, clip = new_Clip, rewindBytes = 0\<rparr>)"

subsection \<open>Duration\<close>



subsection \<open>Example streams\<close>

text \<open>
  The AIFF files used below. \<open>form_header n\<close> is the container header with
  declared size \<open>n\<close>. \<open>comm_stereo\<close> is a COMM chunk for 2 channels, 2 frames, 16 bits and
  44100 Hz; \<open>comm_mono\<close> one for 1 channel, 9 frames, 16 bits and 44100 Hz. An SSND payload
  starts with the offset and block size fields (both 0), followed by the samples.
\<close>

definition form_header :: "byte \<Rightarrow> byte list" where
  "form_header n = [0x46, 0x4F, 0x52, 0x4D, 0, 0, 0, n, 0x41, 0x49, 0x46, 0x46]"

definition comm_stereo :: "byte list" where
  "comm_stereo =
     [0x43, 0x4F, 0x4D, 0x4D, 0, 0, 0, 0x12,
      0, 2, 0, 0, 0, 2, 0, 0x10, 0x40, 0x0E, 0xAC, 0x44, 0, 0, 0, 0, 0, 0]"

definition comm_mono :: "byte list" where
  "comm_mono =
     [0x43, 0x4F, 0x4D, 0x4D, 0, 0, 0, 0x12,
      0, 1, 0, 0, 0, 9, 0, 0x10, 0x40, 0x0E, 0xAC, 0x44, 0, 0, 0, 0, 0, 0]"

text \<open>A COMM chunk whose sample-rate field has a zero mantissa.\<close>

definition comm_zero_rate :: "byte list" where
  "comm_zero_rate =
     [0x43, 0x4F, 0x4D, 0x4D, 0, 0, 0, 0x12,
      0, 1, 0, 0, 0, 9, 0, 0x10, 0x40, 0x0E, 0, 0, 0, 1, 0, 0, 0, 0]"

text \<open>An SSND chunk of 16 bytes: two stereo frames with the samples 1, 2, 3, 4.\<close>

definition ssnd_stereo :: "byte list" where
  "ssnd_stereo =
     [0x53, 0x53, 0x4E, 0x44, 0, 0, 0, 0x10,
      0, 0, 0, 0, 0, 0, 0, 0, 0, 1, 0, 2, 0, 3, 0, 4]"

text \<open>An SSND chunk of 26 bytes: nine mono frames of silence.\<close>

definition ssnd_mono :: "byte list" where
  "ssnd_mono =
     [0x53, 0x53, 0x4E, 0x44, 0, 0, 0, 0x1A,
      0, 0, 0, 0, 0, 0, 0, 0,
      0, 0, 0, 0, 0, 0, 0, 0, 0, 0, 0, 0, 0, 0, 0, 0, 0, 0]"

definition comm_then_ssnd :: "byte list" where
  "comm_then_ssnd = form_header 0x36 @ comm_stereo @ ssnd_stereo"

definition comm_first :: "byte list" where
  "comm_first = form_header 0x40 @ comm_mono @ ssnd_mono"

definition ssnd_first :: "byte list" where
  "ssnd_first = form_header 0x40 @ ssnd_mono @ comm_mono"

text \<open>A file cut off inside the COMM chunk, and one with two stray bytes at the end.\<close>

definition truncated_comm :: "byte list" where
  "truncated_comm = form_header 0x1E @ take 12 comm_stereo"

definition stray_tail :: "byte list" where
  "stray_tail = form_header 0x20 @ comm_stereo @ [1, 2]"

text \<open>The decoder once the header and \<open>comm_mono\<close> have been read.\<close>

definition decoder_mono :: Decoder where
  "decoder_mono =
     new_Decoder\<lparr>ID := formID, Size := 0x40, Format := aiffID, commSize := 0x12,
       NumChans := 1, NumSampleFrames := 9, SampleSize := 0x10, SampleRate := 44100\<rparr>"

text \<open>
  The state of the loop on \<open>ssnd_first\<close> after the COMM chunk has been parsed and the
  reader moved back by \<^verbatim>\<open>rewindBytes\<close>.
\<close>

definition rewound :: loop_state where
  "rewound =
     \<lparr>dec = decoder_mono, rd = \<lparr>content = ssnd_first, offset = 46\<rparr>,
      clip = \<lparr>clip_r = None, channels = 1, bitDepth = 16, sampleRate = 44100, clip_size = 26\<rparr>,
      rewindBytes = 26\<rparr>"

section \<open>The extended-float decoder: properties\<close>

lemma and_0x80_neq_1: "(x AND 0x80) \<noteq> (1::byte)"
proof
  assume h: "x AND 0x80 = 1"
  have "\<not> bit (x AND (0x80::byte)) 0" by (simp add: bit_and_iff)
  with h show False by simp
qed

lemma not_negative_number: "\<not> negative_number b"
  by (simp add: negative_number_def and_0x80_neq_1)

lemma sign_bit_gt_0x40:
  assumes "bit (x::byte) 7"
  shows "x > 0x40"
proof (rule ccontr)
  assume "\<not> x > 0x40"
  then have "unat x < 2 ^ 7" by (simp add: word_less_nat_alt)
  then have "take_bit 7 (unat x) = unat x" by (simp only: take_bit_nat_eq_self)
  then have "\<not> bit (unat x) 7" by (metis bit_take_bit_iff less_irrefl)
  then show False using assms by (simp add: bit_unsigned_iff)
qed

text \<open>The four fields of the mantissa do not overlap, so the bitwise OR is a sum.\<close>

lemma mantissa_sum:
  "mantissa b = push_bit 23 (ucast (b ! 2)) + (push_bit 15 (ucast (b ! 3))
        + (push_bit 7 (ucast (b ! 4)) + drop_bit 1 (ucast (b ! 5))))"
proof -
  let ?A = "push_bit 23 (ucast (b ! 2)) :: 32 word"
  let ?B = "push_bit 15 (ucast (b ! 3)) :: 32 word"
  let ?C = "push_bit 7 (ucast (b ! 4)) :: 32 word"
  let ?D = "drop_bit 1 (ucast (b ! 5)) :: 32 word"
  have 1: "?C + ?D = ?C OR ?D"
    by (rule disjunctive_add) (auto simp add: bit_simps dest: bit_imp_le_length)
  have 2: "?B + (?C OR ?D) = ?B OR (?C OR ?D)"
    by (rule disjunctive_add) (auto simp add: bit_simps dest: bit_imp_le_length)
  have 3: "?A + (?B OR (?C OR ?D)) = ?A OR (?B OR (?C OR ?D))"
    by (rule disjunctive_add) (auto simp add: bit_simps dest: bit_imp_le_length)
  show ?thesis unfolding mantissa_def using 1 2 3 by simp
qed

lemma unat_ucast_byte: "unat (ucast (x::byte) :: 32 word) = unat x"
  by (simp add: unsigned_ucast_eq take_bit_nat_eq_self less_trans [OF unsigned_less [of x]])

lemma unat_shl_byte:
  assumes "n \<le> 23"
  shows "unat (push_bit n (ucast (x::byte)) :: 32 word) = unat x * 2 ^ n"
proof -
  have "unat x < 2 ^ 8" using unsigned_less [of x] by simp
  then have "unat x * 2 ^ n < 2 ^ 8 * 2 ^ n" by simp
  also have "\<dots> = (2::nat) ^ (8 + n)" by (simp add: power_add)
  also have "\<dots> \<le> 2 ^ 31" using assms by (intro power_increasing) simp_all
  finally have "unat x * 2 ^ n < 2 ^ 32" by simp
  then show ?thesis
    by (simp only: unsigned_push_bit_eq unat_ucast_byte)
       (simp add: take_bit_nat_eq_self push_bit_eq_mult)
qed

lemma unat_mantissa:
  "unat (mantissa b) =
     unat (b ! 2) * 2 ^ 23 + unat (b ! 3) * 2 ^ 15 + unat (b ! 4) * 2 ^ 7 + unat (b ! 5) div 2"
proof -
  have b2: "unat (b ! 2) < 256" and b3: "unat (b ! 3) < 256"
    and b4: "unat (b ! 4) < 256" and b5: "unat (b ! 5) < 256"
    using unsigned_less [of "b ! 2"] unsigned_less [of "b ! 3"]
      unsigned_less [of "b ! 4"] unsigned_less [of "b ! 5"] by simp_all
  have D: "unat (drop_bit 1 (ucast (b ! 5)) :: 32 word) = unat (b ! 5) div 2"
    by (simp only: unat_drop_bit_eq unat_ucast_byte) (simp add: drop_bit_eq_div)
  note S = unat_shl_byte [of 23 "b ! 2"] unat_shl_byte [of 15 "b ! 3"]
    unat_shl_byte [of 7 "b ! 4"]
  have "unat (mantissa b) =
      (unat (b ! 2) * 2 ^ 23 + (unat (b ! 3) * 2 ^ 15
         + (unat (b ! 4) * 2 ^ 7 + unat (b ! 5) div 2))) mod 2 ^ 32"
    unfolding mantissa_sum using S D by (simp add: unat_word_ariths mod_simps)
  also have "\<dots> = unat (b ! 2) * 2 ^ 23 + (unat (b ! 3) * 2 ^ 15
         + (unat (b ! 4) * 2 ^ 7 + unat (b ! 5) div 2))"
    using b2 b3 b4 b5 by (intro mod_less) simp
  finally show ?thesis by simp
qed

lemma shift_count:
  assumes "x \<le> (0x1C::byte)"
  shows "unat (29 - ucast x :: 32 word) = 29 - unat x"
proof -
  have le: "unat x \<le> 28" using assms by (simp add: word_le_nat_alt)
  have "(ucast x :: 32 word) \<le> 29"
    using le by (simp add: word_le_nat_alt unat_ucast_byte)
  then have "unat (29 - ucast x :: 32 word) = unat (29 :: 32 word) - unat (ucast x :: 32 word)"
    by (rule unat_sub)
  then show ?thesis by (simp add: unat_ucast_byte)
qed

lemma mantissa_path_value:
  assumes "b ! 0 = 0x40" and "b ! 1 \<le> 0x1C"
  shows "IeeeFloatToInt b =
    int ((unat (b ! 2) * 2 ^ 23 + unat (b ! 3) * 2 ^ 15 + unat (b ! 4) * 2 ^ 7 + unat (b ! 5) div 2)
         div 2 ^ (29 - unat (b ! 1)))"
proof -
  have "IeeeFloatToInt b = uint (drop_bit (unat (29 - ucast (b ! 1) :: 32 word)) (mantissa b))"
    using assms by (simp add: IeeeFloatToInt_def not_negative_number)
  also have "\<dots> = int (unat (drop_bit (29 - unat (b ! 1)) (mantissa b)))"
    by (simp only: shift_count [OF assms(2)]) simp
  also have "\<dots> = int (unat (mantissa b) div 2 ^ (29 - unat (b ! 1)))"
    by (simp only: unat_drop_bit_eq) (simp add: drop_bit_eq_div)
  finally show ?thesis by (simp only: unat_mantissa)
qed

text \<open>
  Claim C3. For every 10-byte input the decoder follows the documented cases in order:
  byte 0 at most 0x3F gives 1, byte 0 above 0x40 gives 67108864, byte 0 equal to 0x40 with
  byte 1 above 0x1C gives 800000000, and otherwise the result is the 32-bit value
  \<^verbatim>\<open>(b[2]<<23 | b[3]<<15 | b[4]<<7 | b[5]>>1) >> (29 - b[1])\<close>. On that last path nothing
  wraps: the result is the quotient of the sum of the four fields by the power of two.
  The bytes 40 0E AC 44 00 ... decode to 44100.
\<close>

theorem IeeeFloatToInt_case_policy:
  assumes "length b = 10"
  shows "IeeeFloatToInt b =
       (if b ! 0 \<le> 0x3F then 1
        else if b ! 0 > 0x40 then 67108864
        else if b ! 0 = 0x40 \<and> b ! 1 > 0x1C then 800000000
        else uint (drop_bit (unat (29 - ucast (b ! 1) :: 32 word))
               (push_bit 23 (ucast (b ! 2)) OR push_bit 15 (ucast (b ! 3))
                  OR push_bit 7 (ucast (b ! 4)) OR drop_bit 1 (ucast (b ! 5)) :: 32 word)))
     \<and> (b ! 0 = 0x40 \<and> b ! 1 \<le> 0x1C \<longrightarrow>
          IeeeFloatToInt b =
            int ((unat (b ! 2) * 2 ^ 23 + unat (b ! 3) * 2 ^ 15 + unat (b ! 4) * 2 ^ 7
                    + unat (b ! 5) div 2) div 2 ^ (29 - unat (b ! 1))))
     \<and> IeeeFloatToInt [0x40, 0x0E, 0xAC, 0x44, 0, 0, 0, 0, 0, 0] = 44100"
proof (intro conjI impI)
  show "IeeeFloatToInt b =
       (if b ! 0 \<le> 0x3F then 1
        else if b ! 0 > 0x40 then 67108864
        else if b ! 0 = 0x40 \<and> b ! 1 > 0x1C then 800000000
        else uint (drop_bit (unat (29 - ucast (b ! 1) :: 32 word))
               (push_bit 23 (ucast (b ! 2)) OR push_bit 15 (ucast (b ! 3))
                  OR push_bit 7 (ucast (b ! 4)) OR drop_bit 1 (ucast (b ! 5)) :: 32 word)))"
    by (simp add: IeeeFloatToInt_def not_negative_number mantissa_def)
next
  assume "b ! 0 = 0x40 \<and> b ! 1 \<le> 0x1C"
  then show "IeeeFloatToInt b =
            int ((unat (b ! 2) * 2 ^ 23 + unat (b ! 3) * 2 ^ 15 + unat (b ! 4) * 2 ^ 7
                    + unat (b ! 5) div 2) div 2 ^ (29 - unat (b ! 1)))"
    by (simp only: mantissa_path_value)
next
  show "IeeeFloatToInt [0x40, 0x0E, 0xAC, 0x44, 0, 0, 0, 0, 0, 0] = 44100"
    by (simp add: IeeeFloatToInt_def negative_number_def mantissa_def)
qed

theorem IeeeFloatToInt_case_policy_witness:
  "length [0x40, 0x0E, 0xAC, 0x44, 0, 0, 0, 0, 0, 0 :: byte] = 10
   \<and> IeeeFloatToInt [0x40, 0x0E, 0xAC, 0x44, 0, 0, 0, 0, 0, 0] = 44100
   \<and> IeeeFloatToInt [0x40, 0x0E, 0xAC, 0x44, 0, 0, 0, 0, 0, 0]
       = int ((172 * 2 ^ 23 + 68 * 2 ^ 15 + 0 * 2 ^ 7 + 0 div 2) div 2 ^ (29 - 14))
   \<and> IeeeFloatToInt [0x00, 0x0E, 0xAC, 0x44, 0, 0, 0, 0, 0, 0] = 1
   \<and> IeeeFloatToInt [0x41, 0x0E, 0xAC, 0x44, 0, 0, 0, 0, 0, 0] = 67108864
   \<and> IeeeFloatToInt [0x40, 0x1D, 0xAC, 0x44, 0, 0, 0, 0, 0, 0] = 800000000"
  using IeeeFloatToInt_case_policy [of "[0x40, 0x0E, 0xAC, 0x44, 0, 0, 0, 0, 0, 0]"]
    IeeeFloatToInt_case_policy [of "[0x00, 0x0E, 0xAC, 0x44, 0, 0, 0, 0, 0, 0]"]
    IeeeFloatToInt_case_policy [of "[0x41, 0x0E, 0xAC, 0x44, 0, 0, 0, 0, 0, 0]"]
    IeeeFloatToInt_case_policy [of "[0x40, 0x1D, 0xAC, 0x44, 0, 0, 0, 0, 0, 0]"]
  by simp

lemma byte_is_0x40: "\<not> x \<le> 0x3F \<Longrightarrow> \<not> 0x40 < x \<Longrightarrow> x = (0x40::byte)"
  by (simp add: word_le_nat_alt word_less_nat_alt word_unat_eq_iff)

text \<open>
  Claim C4. The sign test \<^verbatim>\<open>(b[0] & 0x80) == 1\<close> is false for every input, so the branch
  that returns 0 for a negative number is never taken. An input with the sign bit of
  byte 0 set returns 67108864 (the branch for byte 0 above 0x40), and a result of 0 can
  only come from the mantissa path (byte 0 equal to 0x40, byte 1 at most 0x1C).
\<close>

theorem sign_branch_unreachable:
  assumes "length b = 10"
  shows "\<not> negative_number b
     \<and> (bit (b ! 0) 7 \<longrightarrow> IeeeFloatToInt b = 67108864)
     \<and> (IeeeFloatToInt b = 0 \<longrightarrow> b ! 0 = 0x40 \<and> b ! 1 \<le> 0x1C)"
proof (intro conjI impI)
  show "\<not> negative_number b" by (rule not_negative_number)
next
  assume "bit (b ! 0) 7"
  then have gt: "b ! 0 > 0x40" by (rule sign_bit_gt_0x40)
  then have "\<not> b ! 0 \<le> 0x3F" by (simp add: word_le_nat_alt word_less_nat_alt)
  with gt show "IeeeFloatToInt b = 67108864"
    by (simp add: IeeeFloatToInt_def not_negative_number)
next
  assume z: "IeeeFloatToInt b = 0"
  then have 1: "\<not> b ! 0 \<le> 0x3F" and 2: "\<not> b ! 0 > 0x40"
    by (auto simp add: IeeeFloatToInt_def not_negative_number split: if_splits)
  from 1 2 show 3: "b ! 0 = 0x40" by (rule byte_is_0x40)
  from z 3 show "b ! 1 \<le> 0x1C"
    by (auto simp add: IeeeFloatToInt_def not_negative_number split: if_splits)
qed

theorem sign_branch_unreachable_witness:
  "length [0x80, 0, 0, 0, 0, 0, 0, 0, 0, 0 :: byte] = 10
   \<and> bit (0x80 :: byte) 7
   \<and> \<not> negative_number [0x80, 0, 0, 0, 0, 0, 0, 0, 0, 0]
   \<and> IeeeFloatToInt [0x80, 0, 0, 0, 0, 0, 0, 0, 0, 0] = 67108864
   \<and> IeeeFloatToInt [0x40, 0, 0, 0, 0, 0, 0, 0, 0, 0] = 0"
  using sign_branch_unreachable [of "[0x80, 0, 0, 0, 0, 0, 0, 0, 0, 0]"]
  by (simp add: IeeeFloatToInt_def negative_number_def mantissa_def)

section \<open>The stream and the readers: properties\<close>

lemma binary_Read_ok:
  "0 < n \<Longrightarrow> offset r + n \<le> length (content r) \<Longrightarrow>
   binary_Read n r = (Inr (take n (drop (offset r) (content r))), r\<lparr>offset := offset r + n\<rparr>)"
  by (auto simp add: binary_Read_def Let_def)

lemma binary_Read_short:
  "0 < n \<Longrightarrow> length (content r) < offset r + n \<Longrightarrow>
   \<exists>err. binary_Read n r = (Inl err, r\<lparr>offset := max (offset r) (length (content r))\<rparr>)"
  by (auto simp add: binary_Read_def Let_def max_def)

lemma iDnSize_ok:
  assumes "offset r + 8 \<le> length (content r)"
  shows "iDnSize r = ((take 4 (drop (offset r) (content r)),
                       uint32_be (take 4 (drop (offset r + 4) (content r))), None),
                      r\<lparr>offset := offset r + 8\<rparr>)"
  using assms by (simp add: iDnSize_def binary_Read_ok add.commute)

lemma iDnSize_fails:
  assumes "length (content r) < offset r + 4"
  shows "iDnSize r =
     ((replicate 4 0, 0, Some (if length (content r) \<le> offset r then EOF else ErrUnexpectedEOF)),
      r\<lparr>offset := max (offset r) (length (content r))\<rparr>)"
  using assms by (auto simp add: iDnSize_def binary_Read_def Let_def max_def)

lemma IDnSize_eq: "IDnSize r = iDnSize r"
  by (simp add: IDnSize_def iDnSize_def)

lemma iDnSize_id_read:
  assumes "binary_Read 4 r = (Inr ib, r1)"
  shows "\<exists>sz r2. iDnSize r = ((ib, sz, None), r2)"
  using assms by (simp add: iDnSize_def split: prod.splits sum.splits)

lemma iDnSize_size_failed:
  assumes "binary_Read 4 r = (Inr ib, r1)" and "binary_Read 4 r1 = (Inl err, r2)"
  shows "iDnSize r = ((ib, 0, None), r2)"
  using assms by (simp add: iDnSize_def)

lemma iDnSize_truncated:
  assumes "offset r + 4 \<le> length (content r)" and "length (content r) < offset r + 8"
  shows "iDnSize r = ((take 4 (drop (offset r) (content r)), 0, None),
                      r\<lparr>offset := length (content r)\<rparr>)"
proof -
  let ?r1 = "r\<lparr>offset := offset r + 4\<rparr>"
  have 1: "binary_Read 4 r = (Inr (take 4 (drop (offset r) (content r))), ?r1)"
    using assms(1) by (simp add: binary_Read_ok)
  have "length (content ?r1) < offset ?r1 + 4" using assms(2) by simp
  then obtain err where 2: "binary_Read 4 ?r1 = (Inl err, ?r1\<lparr>offset := max (offset ?r1) (length (content ?r1))\<rparr>)"
    using binary_Read_short [of 4 ?r1] by auto
  have "max (offset ?r1) (length (content ?r1)) = length (content r)"
    using assms(1) by (simp add: max_def)
  with 2 have "binary_Read 4 ?r1 = (Inl err, r\<lparr>offset := length (content r)\<rparr>)" by simp
  with 1 show ?thesis by (simp add: iDnSize_size_failed)
qed

lemma parseAifcTail_keeps:
  "SampleRate (fst (snd (parseAifcTail d r))) = SampleRate d"
  by (simp add: parseAifcTail_def Let_def split: prod.splits sum.splits)

lemma parseCommChunk_SampleRate:
  assumes "offset r + 18 \<le> length (content r)"
  shows "SampleRate (fst (snd (parseCommChunk sz d r))) =
         IeeeFloatToInt (take 10 (drop (offset r + 8) (content r)))"
  using assms
  by (simp add: parseCommChunk_def binary_Read_ok Let_def parseAifcTail_keeps add.commute)

lemma parseCommChunk_ok:
  assumes "offset r + 18 \<le> length (content r)" and "Format d \<noteq> aifcID"
  shows "parseCommChunk sz d r =
     (None,
      d\<lparr>commSize := sz,
        NumChans := uint16_be (take 2 (drop (offset r) (content r))),
        NumSampleFrames := uint32_be (take 4 (drop (offset r + 2) (content r))),
        SampleSize := uint16_be (take 2 (drop (offset r + 6) (content r))),
        SampleRate := IeeeFloatToInt (take 10 (drop (offset r + 8) (content r)))\<rparr>,
      r\<lparr>offset := offset r + 18\<rparr>)"
  using assms by (simp add: parseCommChunk_def binary_Read_ok Let_def add.commute)

lemma uint32_be_value:
  "unat (uint32_be [a, b, c, e]) = unat a * 2 ^ 24 + unat b * 2 ^ 16 + unat c * 2 ^ 8 + unat e"
proof -
  have a: "unat a < 256" and b: "unat b < 256" and c: "unat c < 256" and e: "unat e < 256"
    using unsigned_less [of a] unsigned_less [of b] unsigned_less [of c] unsigned_less [of e]
    by simp_all
  have "be_nat [a, b, c, e] = unat a * 2 ^ 24 + unat b * 2 ^ 16 + unat c * 2 ^ 8 + unat e"
    by (simp add: be_nat_def)
  moreover have "unat a * 2 ^ 24 + unat b * 2 ^ 16 + unat c * 2 ^ 8 + unat e < 2 ^ 32"
    using a b c e by simp
  ultimately show ?thesis
    by (simp only: uint32_be_def unat_of_nat) simp
qed

lemma readHeaders_bad_form:
  assumes "offset r + 4 \<le> length (content r)"
    and "take 4 (drop (offset r) (content r)) \<noteq> formID"
  shows "readHeaders d r =
     (Some (ErrFmtNotSupported (take 4 (drop (offset r) (content r)))),
      d\<lparr>ID := take 4 (drop (offset r) (content r))\<rparr>, r\<lparr>offset := offset r + 4\<rparr>)"
  using assms by (simp add: readHeaders_def binary_Read_ok Let_def)

lemma readHeaders_full:
  assumes "offset r + 12 \<le> length (content r)"
    and "take 4 (drop (offset r) (content r)) = formID"
  shows "readHeaders d r =
     (if take 4 (drop (offset r + 8) (content r)) \<noteq> aiffID
         \<and> take 4 (drop (offset r + 8) (content r)) \<noteq> aifcID
      then Some (ErrFmtNotSupported (take 4 (drop (offset r + 8) (content r)))) else None,
      d\<lparr>ID := formID,
        Size := uint32_be (take 4 (drop (offset r + 4) (content r))),
        Format := take 4 (drop (offset r + 8) (content r))\<rparr>,
      r\<lparr>offset := offset r + 12\<rparr>)"
  using assms by (simp add: readHeaders_def binary_Read_ok Let_def add.commute)

section \<open>The header validator\<close>

text \<open>
  Claim C6. The header is read as three big-endian fields of 4 bytes each. When the first
  4 bytes are not FORM, \<^verbatim>\<open>readHeaders\<close> fails with the format error after reading those
  4 bytes only. When they are FORM and 12 bytes are there, it reads exactly 12 bytes: a
  format marker other than AIFF and AIFC gives the format error, and otherwise it
  succeeds, having recorded the three fields in the decoder and moved the reader forward
  by 12 bytes, the bytes of the stream unchanged.
\<close>

theorem readHeaders_contract:
  "(offset r + 4 \<le> length (content r) \<and> take 4 (drop (offset r) (content r)) \<noteq> formID \<longrightarrow>
      readHeaders d r =
        (Some (ErrFmtNotSupported (take 4 (drop (offset r) (content r)))),
         d\<lparr>ID := take 4 (drop (offset r) (content r))\<rparr>, r\<lparr>offset := offset r + 4\<rparr>))
   \<and> (offset r + 12 \<le> length (content r) \<and> take 4 (drop (offset r) (content r)) = formID
        \<and> take 4 (drop (offset r + 8) (content r)) \<noteq> aiffID
        \<and> take 4 (drop (offset r + 8) (content r)) \<noteq> aifcID \<longrightarrow>
      readHeaders d r =
        (Some (ErrFmtNotSupported (take 4 (drop (offset r + 8) (content r)))),
         d\<lparr>ID := formID,
           Size := uint32_be (take 4 (drop (offset r + 4) (content r))),
           Format := take 4 (drop (offset r + 8) (content r))\<rparr>,
         r\<lparr>offset := offset r + 12\<rparr>))
   \<and> (offset r + 12 \<le> length (content r) \<and> take 4 (drop (offset r) (content r)) = formID
        \<and> (take 4 (drop (offset r + 8) (content r)) = aiffID
             \<or> take 4 (drop (offset r + 8) (content r)) = aifcID) \<longrightarrow>
      readHeaders d r =
        (None,
         d\<lparr>ID := formID,
           Size := uint32_be (take 4 (drop (offset r + 4) (content r))),
           Format := take 4 (drop (offset r + 8) (content r))\<rparr>,
         r\<lparr>offset := offset r + 12\<rparr>))
   \<and> unat (uint32_be [a, b, c, e]) = unat a * 2 ^ 24 + unat b * 2 ^ 16 + unat c * 2 ^ 8 + unat e"
proof (intro conjI impI)
  assume "offset r + 4 \<le> length (content r) \<and> take 4 (drop (offset r) (content r)) \<noteq> formID"
  then show "readHeaders d r =
        (Some (ErrFmtNotSupported (take 4 (drop (offset r) (content r)))),
         d\<lparr>ID := take 4 (drop (offset r) (content r))\<rparr>, r\<lparr>offset := offset r + 4\<rparr>)"
    by (simp add: readHeaders_bad_form)
next
  assume "offset r + 12 \<le> length (content r) \<and> take 4 (drop (offset r) (content r)) = formID
        \<and> take 4 (drop (offset r + 8) (content r)) \<noteq> aiffID
        \<and> take 4 (drop (offset r + 8) (content r)) \<noteq> aifcID"
  then show "readHeaders d r =
        (Some (ErrFmtNotSupported (take 4 (drop (offset r + 8) (content r)))),
         d\<lparr>ID := formID,
           Size := uint32_be (take 4 (drop (offset r + 4) (content r))),
           Format := take 4 (drop (offset r + 8) (content r))\<rparr>,
         r\<lparr>offset := offset r + 12\<rparr>)"
    by (simp add: readHeaders_full)
next
  assume h: "offset r + 12 \<le> length (content r) \<and> take 4 (drop (offset r) (content r)) = formID
        \<and> (take 4 (drop (offset r + 8) (content r)) = aiffID
             \<or> take 4 (drop (offset r + 8) (content r)) = aifcID)"
  then have "readHeaders d r =
     (if take 4 (drop (offset r + 8) (content r)) \<noteq> aiffID
         \<and> take 4 (drop (offset r + 8) (content r)) \<noteq> aifcID
      then Some (ErrFmtNotSupported (take 4 (drop (offset r + 8) (content r)))) else None,
      d\<lparr>ID := formID,
        Size := uint32_be (take 4 (drop (offset r + 4) (content r))),
        Format := take 4 (drop (offset r + 8) (content r))\<rparr>,
      r\<lparr>offset := offset r + 12\<rparr>)"
    by (simp only: readHeaders_full)
  with h show "readHeaders d r =
        (None,
         d\<lparr>ID := formID,
           Size := uint32_be (take 4 (drop (offset r + 4) (content r))),
           Format := take 4 (drop (offset r + 8) (content r))\<rparr>,
         r\<lparr>offset := offset r + 12\<rparr>)"
    by auto
next
  show "unat (uint32_be [a, b, c, e]) = unat a * 2 ^ 24 + unat b * 2 ^ 16 + unat c * 2 ^ 8 + unat e"
    by (rule uint32_be_value)
qed

theorem readHeaders_contract_witness:
  "readHeaders new_Decoder \<lparr>content = [1, 2, 3, 4, 5, 6, 7, 8, 9, 10, 11, 12, 13], offset = 0\<rparr>
     = (Some (ErrFmtNotSupported [1, 2, 3, 4]), new_Decoder\<lparr>ID := [1, 2, 3, 4]\<rparr>,
        \<lparr>content = [1, 2, 3, 4, 5, 6, 7, 8, 9, 10, 11, 12, 13], offset = 4\<rparr>)
   \<and> readHeaders new_Decoder
        \<lparr>content = [0x46, 0x4F, 0x52, 0x4D, 0, 0, 1, 2, 0x57, 0x41, 0x56, 0x45, 7], offset = 0\<rparr>
     = (Some (ErrFmtNotSupported [0x57, 0x41, 0x56, 0x45]),
        new_Decoder\<lparr>ID := formID, Size := 258, Format := [0x57, 0x41, 0x56, 0x45]\<rparr>,
        \<lparr>content = [0x46, 0x4F, 0x52, 0x4D, 0, 0, 1, 2, 0x57, 0x41, 0x56, 0x45, 7], offset = 12\<rparr>)
   \<and> readHeaders new_Decoder
        \<lparr>content = [0x46, 0x4F, 0x52, 0x4D, 0, 0, 1, 2, 0x41, 0x49, 0x46, 0x43, 7], offset = 0\<rparr>
     = (None, new_Decoder\<lparr>ID := formID, Size := 258, Format := aifcID\<rparr>,
        \<lparr>content = [0x46, 0x4F, 0x52, 0x4D, 0, 0, 1, 2, 0x41, 0x49, 0x46, 0x43, 7], offset = 12\<rparr>)"
  using
    readHeaders_contract [of "\<lparr>content = [1, 2, 3, 4, 5, 6, 7, 8, 9, 10, 11, 12, 13], offset = 0\<rparr>"
      new_Decoder]
    readHeaders_contract
      [of "\<lparr>content = [0x46, 0x4F, 0x52, 0x4D, 0, 0, 1, 2, 0x57, 0x41, 0x56, 0x45, 7], offset = 0\<rparr>"
        new_Decoder]
    readHeaders_contract
      [of "\<lparr>content = [0x46, 0x4F, 0x52, 0x4D, 0, 0, 1, 2, 0x41, 0x49, 0x46, 0x43, 7], offset = 0\<rparr>"
        new_Decoder]
  by (simp add: formID_def aiffID_def aifcID_def uint32_be_def be_nat_def)

section \<open>The chunk-header reader\<close>

text \<open>
  Claim C9. \<^verbatim>\<open>iDnSize\<close> and \<^verbatim>\<open>IDnSize\<close> never report a failure of the size read: once the
  4 bytes of the id have been read, the error returned is \<^verbatim>\<open>nil\<close>, and when the size read
  fails the block size is 0. A stream that ends after the id (or inside the size field)
  yields the id, the size 0 and no error.
\<close>

theorem iDnSize_never_reports_size_error:
  "(\<forall>ib r1. binary_Read 4 r = (Inr ib, r1) \<longrightarrow>
       (\<exists>sz r2. iDnSize r = ((ib, sz, None), r2) \<and> IDnSize r = ((ib, sz, None), r2)))
   \<and> (\<forall>ib r1 err r2. binary_Read 4 r = (Inr ib, r1) \<and> binary_Read 4 r1 = (Inl err, r2) \<longrightarrow>
         iDnSize r = ((ib, 0, None), r2) \<and> IDnSize r = ((ib, 0, None), r2))
   \<and> (offset r + 4 \<le> length (content r) \<and> length (content r) < offset r + 8 \<longrightarrow>
         iDnSize r = ((take 4 (drop (offset r) (content r)), 0, None),
                      r\<lparr>offset := length (content r)\<rparr>)
         \<and> IDnSize r = ((take 4 (drop (offset r) (content r)), 0, None),
                      r\<lparr>offset := length (content r)\<rparr>))"
  using iDnSize_id_read [of r] iDnSize_size_failed [of r] iDnSize_truncated [of r]
  by (simp add: IDnSize_eq)

theorem iDnSize_never_reports_size_error_witness:
  "binary_Read 4 \<lparr>content = [0x53, 0x53, 0x4E, 0x44], offset = 0\<rparr>
      = (Inr [0x53, 0x53, 0x4E, 0x44], \<lparr>content = [0x53, 0x53, 0x4E, 0x44], offset = 4\<rparr>)
   \<and> binary_Read 4 \<lparr>content = [0x53, 0x53, 0x4E, 0x44], offset = 4\<rparr>
      = (Inl EOF, \<lparr>content = [0x53, 0x53, 0x4E, 0x44], offset = 4\<rparr>)
   \<and> iDnSize \<lparr>content = [0x53, 0x53, 0x4E, 0x44], offset = 0\<rparr>
      = (([0x53, 0x53, 0x4E, 0x44], 0, None), \<lparr>content = [0x53, 0x53, 0x4E, 0x44], offset = 4\<rparr>)
   \<and> IDnSize \<lparr>content = [0x53, 0x53, 0x4E, 0x44], offset = 0\<rparr>
      = (([0x53, 0x53, 0x4E, 0x44], 0, None), \<lparr>content = [0x53, 0x53, 0x4E, 0x44], offset = 4\<rparr>)"
  using iDnSize_never_reports_size_error [of "\<lparr>content = [0x53, 0x53, 0x4E, 0x44], offset = 0\<rparr>"]
  by (simp add: binary_Read_def)

section \<open>A sample rate of 0 from the mantissa path\<close>

lemma zero_mantissa:
  assumes "b ! 2 = 0" "b ! 3 = 0" "b ! 4 = 0" "b ! 5 < 2"
  shows "mantissa b = 0"
proof -
  have "unat (b ! 5) < 2" using assms(4) by (simp add: word_less_nat_alt)
  then have "unat (mantissa b) = 0" using assms(1-3) by (simp add: unat_mantissa)
  then show ?thesis by (simp add: unat_eq_0)
qed

lemma IeeeFloatToInt_zero:
  assumes "b ! 0 = 0x40" "b ! 1 \<le> 0x1C" "b ! 2 = 0" "b ! 3 = 0" "b ! 4 = 0" "b ! 5 < 2"
  shows "IeeeFloatToInt b = 0"
proof -
  have "mantissa b = 0" using assms(3-6) by (rule zero_mantissa)
  moreover have "\<not> b ! 1 > 0x1C" using assms(2) by simp
  ultimately show ?thesis using assms(1) 
    by (simp add: IeeeFloatToInt_def not_negative_number)
qed

lemma loop_body_comm:
  assumes "offset (rd s) + 8 \<le> length (content (rd s))"
    and "take 4 (drop (offset (rd s)) (content (rd s))) = commID"
  shows "\<exists>s'. loop_body s = Next s'
      \<and> sampleRate (clip s') = SampleRate (dec s')
      \<and> SampleRate (dec s') = SampleRate (fst (snd (parseCommChunk
           (uint32_be (take 4 (drop (offset (rd s) + 4) (content (rd s))))) (dec s)
           ((rd s)\<lparr>offset := offset (rd s) + 8\<rparr>))))"
  using assms by (simp add: loop_body_def iDnSize_ok Let_def split: prod.splits)

text \<open>
  Claim C10. With byte 0 equal to 0x40, byte 1 at most 0x1C, bytes 2 to 4 zero and byte 5
  below 2, the mantissa is 0 and \<^verbatim>\<open>IeeeFloatToInt\<close> returns 0. A COMM chunk with such a
  sample-rate field leaves \<^verbatim>\<open>SampleRate\<close> at 0, and after the pass of the loop that parses
  it the clip's sample rate is 0, the value that the SSND case reads as COMM not yet seen.
\<close>

theorem zero_mantissa_zero_sample_rate:
  assumes "length b = 10" and "b ! 0 = 0x40" and "b ! 1 \<le> 0x1C"
    and "b ! 2 = 0" and "b ! 3 = 0" and "b ! 4 = 0" and "b ! 5 < 2"
  shows "mantissa b = 0 \<and> IeeeFloatToInt b = 0
    \<and> (offset r + 18 \<le> length (content r) \<and> take 10 (drop (offset r + 8) (content r)) = b \<longrightarrow>
         SampleRate (fst (snd (parseCommChunk sz d r))) = 0)
    \<and> (offset (rd s) + 26 \<le> length (content (rd s))
         \<and> take 4 (drop (offset (rd s)) (content (rd s))) = commID
         \<and> take 10 (drop (offset (rd s) + 16) (content (rd s))) = b \<longrightarrow>
         (\<exists>s'. loop_body s = Next s' \<and> SampleRate (dec s') = 0 \<and> sampleRate (clip s') = 0))"
proof (intro conjI impI)
  show "mantissa b = 0" using assms(4-7) by (rule zero_mantissa)
  show z: "IeeeFloatToInt b = 0" using assms(2-7) by (rule IeeeFloatToInt_zero)
  {
    assume "offset r + 18 \<le> length (content r) \<and> take 10 (drop (offset r + 8) (content r)) = b"
    then show "SampleRate (fst (snd (parseCommChunk sz d r))) = 0"
      using z by (simp add: parseCommChunk_SampleRate)
  }
  {
    assume h: "offset (rd s) + 26 \<le> length (content (rd s))
         \<and> take 4 (drop (offset (rd s)) (content (rd s))) = commID
         \<and> take 10 (drop (offset (rd s) + 16) (content (rd s))) = b"
    let ?r1 = "(rd s)\<lparr>offset := offset (rd s) + 8\<rparr>"
    have "offset ?r1 + 18 \<le> length (content ?r1)" using h by simp
    then have "SampleRate (fst (snd (parseCommChunk (uint32_be (take 4 (drop (offset (rd s) + 4) (content (rd s))))) (dec s) ?r1)))
       = IeeeFloatToInt (take 10 (drop (offset ?r1 + 8) (content ?r1)))"
      by (rule parseCommChunk_SampleRate)
    also have "\<dots> = 0" using h z by (simp add: add.commute add.left_commute)
    finally have sr: "SampleRate (fst (snd (parseCommChunk (uint32_be (take 4 (drop (offset (rd s) + 4) (content (rd s))))) (dec s) ?r1))) = 0" .
    from h have "offset (rd s) + 8 \<le> length (content (rd s))" by simp
    with h obtain s' where "loop_body s = Next s'" "sampleRate (clip s') = SampleRate (dec s')"
      "SampleRate (dec s') = SampleRate (fst (snd (parseCommChunk
           (uint32_be (take 4 (drop (offset (rd s) + 4) (content (rd s))))) (dec s) ?r1)))"
      using loop_body_comm [of s] by blast
    with sr show "\<exists>s'. loop_body s = Next s' \<and> SampleRate (dec s') = 0 \<and> sampleRate (clip s') = 0"
      by simp
  }
qed

theorem zero_mantissa_zero_sample_rate_witness:
  "mantissa [0x40, 0x0E, 0, 0, 0, 1, 0, 0, 0, 0] = 0
   \<and> IeeeFloatToInt [0x40, 0x0E, 0, 0, 0, 1, 0, 0, 0, 0] = 0
   \<and> SampleRate (fst (snd (parseCommChunk 18 new_Decoder
        \<lparr>content = form_header 0x1E @ comm_zero_rate, offset = 20\<rparr>))) = 0
   \<and> (\<exists>s'. loop_body
               \<lparr>dec = new_Decoder,
                rd = \<lparr>content = form_header 0x1E @ comm_zero_rate, offset = 12\<rparr>,
                clip = new_Clip, rewindBytes = 0\<rparr> = Next s'
          \<and> SampleRate (dec s') = 0 \<and> sampleRate (clip s') = 0)"
  using zero_mantissa_zero_sample_rate
    [where b = "[0x40, 0x0E, 0, 0, 0, 1, 0, 0, 0, 0]"
       and r = "\<lparr>content = form_header 0x1E @ comm_zero_rate, offset = 20\<rparr>"
       and s = "\<lparr>dec = new_Decoder,
                 rd = \<lparr>content = form_header 0x1E @ comm_zero_rate, offset = 12\<rparr>,
                 clip = new_Clip, rewindBytes = 0\<rparr>"
       and sz = 18 and d = new_Decoder]
  by (simp add: form_header_def comm_zero_rate_def commID_def)

section \<open>Decode on the example streams\<close>

lemmas stream_defs = comm_then_ssnd_def comm_first_def ssnd_first_def truncated_comm_def
  stray_tail_def form_header_def comm_stereo_def comm_mono_def ssnd_stereo_def ssnd_mono_def
  comm_zero_rate_def

lemmas id_defs = formID_def aiffID_def aifcID_def commID_def ssndID_def

lemmas field_defs = uint32_be_def uint16_be_def be_nat_def IeeeFloatToInt_def
  negative_number_def mantissa_def

lemma ids_distinct:
  "commID \<noteq> ssndID" "ssndID \<noteq> commID" "aiffID \<noteq> aifcID"
  "[0, 0, 0, 0] \<noteq> commID" "[0, 0, 0, 0] \<noteq> ssndID"
  "[0, 1, 0, 2] \<noteq> commID" "[0, 1, 0, 2] \<noteq> ssndID"
  by (simp_all add: id_defs)

lemma new_Decoder_sel:
  "Chan new_Decoder = None" "NumChans new_Decoder = 0" "SampleSize new_Decoder = 0"
  "SampleRate new_Decoder = 0" "NumSampleFrames new_Decoder = 0"
  by (simp_all add: new_Decoder_def)

lemma traverse_cycle: "loop_body s = Next s \<Longrightarrow> traverse n s = None"
  by (induction n) simp_all

lemma traverse_numeral:
  "traverse (numeral k) s =
     (case loop_body s of Return res \<Rightarrow> Some res | Next s' \<Rightarrow> traverse (pred_numeral k) s')"
  by (simp add: numeral_eq_Suc)

lemma traverse_one:
  "traverse 1 s = (case loop_body s of Return res \<Rightarrow> Some res | Next s' \<Rightarrow> None)"
  by (simp split: outcome.splits)

subsection \<open>comm_then_ssnd\<close>

lemma len_comm_then_ssnd: "length comm_then_ssnd = 62"
  by (simp add: stream_defs)

lemma slices_comm_then_ssnd:
  "take 4 comm_then_ssnd = formID"
  "uint32_be (take 4 (drop 4 comm_then_ssnd)) = 0x36"
  "take 4 (drop 8 comm_then_ssnd) = aiffID"
  "take 4 (drop 12 comm_then_ssnd) = commID"
  "uint32_be (take 4 (drop 16 comm_then_ssnd)) = 18"
  "uint16_be (take 2 (drop 20 comm_then_ssnd)) = 2"
  "uint32_be (take 4 (drop 22 comm_then_ssnd)) = 2"
  "uint16_be (take 2 (drop 26 comm_then_ssnd)) = 16"
  "IeeeFloatToInt (take 10 (drop 28 comm_then_ssnd)) = 44100"
  "take 4 (drop 38 comm_then_ssnd) = ssndID"
  "uint32_be (take 4 (drop 42 comm_then_ssnd)) = 16"
  "take 4 (drop 46 comm_then_ssnd) = [0, 0, 0, 0]"
  "uint32_be (take 4 (drop 50 comm_then_ssnd)) = 0"
  "take 4 (drop 54 comm_then_ssnd) = [0, 1, 0, 2]"
  "uint32_be (drop 58 comm_then_ssnd) = 196612"
  by (simp_all add: stream_defs id_defs field_defs)

lemma header_comm_then_ssnd:
  "readHeaders new_Decoder \<lparr>content = comm_then_ssnd, offset = 0\<rparr> =
     (None, new_Decoder\<lparr>ID := formID, Size := 0x36, Format := aiffID\<rparr>,
      \<lparr>content = comm_then_ssnd, offset = 12\<rparr>)"
  using readHeaders_full [of "\<lparr>content = comm_then_ssnd, offset = 0\<rparr>" new_Decoder]
  by (simp add: len_comm_then_ssnd slices_comm_then_ssnd)

lemma Decode_comm_then_ssnd:
  "Decode 4 \<lparr>content = comm_then_ssnd, offset = 0\<rparr> = Some (Inl EOF)"
proof -
  let ?d0 = "new_Decoder\<lparr>ID := formID, Size := 0x36, Format := aiffID\<rparr>"
  let ?d1 = "?d0\<lparr>commSize := 18, NumChans := 2, NumSampleFrames := 2, SampleSize := 16,
               SampleRate := 44100\<rparr>"
  let ?c1 = "new_Clip\<lparr>channels := 2, bitDepth := 16, sampleRate := 44100\<rparr>"
  let ?c2 = "?c1\<lparr>clip_size := 16\<rparr>"
  let ?s0 = "\<lparr>dec = ?d0, rd = \<lparr>content = comm_then_ssnd, offset = 12\<rparr>, clip = new_Clip,
              rewindBytes = 0\<rparr>"
  let ?s1 = "\<lparr>dec = ?d1, rd = \<lparr>content = comm_then_ssnd, offset = 38\<rparr>, clip = ?c1,
              rewindBytes = 0\<rparr>"
  let ?s2 = "\<lparr>dec = ?d1, rd = \<lparr>content = comm_then_ssnd, offset = 46\<rparr>, clip = ?c2,
              rewindBytes = 0\<rparr>"
  let ?s3 = "\<lparr>dec = ?d1, rd = \<lparr>content = comm_then_ssnd, offset = 54\<rparr>, clip = ?c2,
              rewindBytes = 0\<rparr>"
  have p1: "loop_body ?s0 = Next ?s1"
    by (simp add: loop_body_def iDnSize_ok parseCommChunk_ok len_comm_then_ssnd
        slices_comm_then_ssnd ids_distinct new_Decoder_def new_Clip_def Let_def)
  have p2: "loop_body ?s1 = Next ?s2"
    by (simp add: loop_body_def iDnSize_ok len_comm_then_ssnd
        slices_comm_then_ssnd ids_distinct new_Clip_def Let_def)
  have p3: "loop_body ?s2 = Next ?s3"
    by (simp add: loop_body_def iDnSize_ok len_comm_then_ssnd jumpTo_def
        slices_comm_then_ssnd ids_distinct new_Clip_def Let_def)
  have p4: "loop_body ?s3 = Return (Inl EOF)"
    by (simp add: loop_body_def iDnSize_ok len_comm_then_ssnd jumpTo_def
        slices_comm_then_ssnd ids_distinct new_Clip_def Let_def)
  show ?thesis
    by (simp add: Decode_def header_comm_then_ssnd traverse_numeral p1 p2 p3 p4)
qed


subsection \<open>comm_first\<close>

lemma len_comm_first: "length comm_first = 72"
  by (simp add: stream_defs)

lemma slices_comm_first:
  "take 4 comm_first = formID"
  "uint32_be (take 4 (drop 4 comm_first)) = 0x40"
  "take 4 (drop 8 comm_first) = aiffID"
  "take 4 (drop 12 comm_first) = commID"
  "uint32_be (take 4 (drop 16 comm_first)) = 18"
  "uint16_be (take 2 (drop 20 comm_first)) = 1"
  "uint32_be (take 4 (drop 22 comm_first)) = 9"
  "uint16_be (take 2 (drop 26 comm_first)) = 16"
  "IeeeFloatToInt (take 10 (drop 28 comm_first)) = 44100"
  "take 4 (drop 38 comm_first) = ssndID"
  "uint32_be (take 4 (drop 42 comm_first)) = 26"
  "take 4 (drop 46 comm_first) = [0, 0, 0, 0]"
  "uint32_be (take 4 (drop 50 comm_first)) = 0"
  "take 4 (drop 54 comm_first) = [0, 0, 0, 0]"
  "uint32_be (take 4 (drop 58 comm_first)) = 0"
  "take 4 (drop 62 comm_first) = [0, 0, 0, 0]"
  "uint32_be (take 4 (drop 66 comm_first)) = 0"
  by (simp_all add: stream_defs id_defs field_defs)

lemma header_comm_first:
  "readHeaders new_Decoder \<lparr>content = comm_first, offset = 0\<rparr> =
     (None, new_Decoder\<lparr>ID := formID, Size := 0x40, Format := aiffID\<rparr>,
      \<lparr>content = comm_first, offset = 12\<rparr>)"
  using readHeaders_full [of "\<lparr>content = comm_first, offset = 0\<rparr>" new_Decoder]
  by (simp add: len_comm_first slices_comm_first)

lemma Decode_comm_first:
  "Decode 6 \<lparr>content = comm_first, offset = 0\<rparr> =
     Some (Inr \<lparr>clip_r = Some \<lparr>content = comm_first, offset = 72\<rparr>, channels = 1,
                 bitDepth = 16, sampleRate = 44100, clip_size = 26\<rparr>)"
proof -
  let ?d0 = "new_Decoder\<lparr>ID := formID, Size := 0x40, Format := aiffID\<rparr>"
  let ?c1 = "new_Clip\<lparr>channels := 1, bitDepth := 16, sampleRate := 44100\<rparr>"
  let ?c2 = "?c1\<lparr>clip_size := 26\<rparr>"
  let ?s0 = "\<lparr>dec = ?d0, rd = \<lparr>content = comm_first, offset = 12\<rparr>, clip = new_Clip,
              rewindBytes = 0\<rparr>"
  let ?s1 = "\<lparr>dec = decoder_mono, rd = \<lparr>content = comm_first, offset = 38\<rparr>, clip = ?c1,
              rewindBytes = 0\<rparr>"
  let ?s2 = "\<lparr>dec = decoder_mono, rd = \<lparr>content = comm_first, offset = 46\<rparr>, clip = ?c2,
              rewindBytes = 0\<rparr>"
  let ?s3 = "\<lparr>dec = decoder_mono, rd = \<lparr>content = comm_first, offset = 54\<rparr>, clip = ?c2,
              rewindBytes = 0\<rparr>"
  let ?s4 = "\<lparr>dec = decoder_mono, rd = \<lparr>content = comm_first, offset = 62\<rparr>, clip = ?c2,
              rewindBytes = 0\<rparr>"
  let ?s5 = "\<lparr>dec = decoder_mono, rd = \<lparr>content = comm_first, offset = 70\<rparr>, clip = ?c2,
              rewindBytes = 0\<rparr>"
  have p1: "loop_body ?s0 = Next ?s1"
    by (simp add: loop_body_def iDnSize_ok parseCommChunk_ok len_comm_first decoder_mono_def
        slices_comm_first ids_distinct new_Decoder_def new_Clip_def Let_def)
  have p2: "loop_body ?s1 = Next ?s2"
    by (simp add: loop_body_def iDnSize_ok len_comm_first
        slices_comm_first ids_distinct new_Clip_def Let_def)
  have p3: "loop_body ?s2 = Next ?s3"
    by (simp add: loop_body_def iDnSize_ok len_comm_first jumpTo_def
        slices_comm_first ids_distinct new_Clip_def Let_def)
  have p4: "loop_body ?s3 = Next ?s4"
    by (simp add: loop_body_def iDnSize_ok len_comm_first jumpTo_def
        slices_comm_first ids_distinct new_Clip_def Let_def)
  have p5: "loop_body ?s4 = Next ?s5"
    by (simp add: loop_body_def iDnSize_ok len_comm_first jumpTo_def
        slices_comm_first ids_distinct new_Clip_def Let_def)
  have p6: "loop_body ?s5 = Return (Inr (?c2\<lparr>clip_r := Some \<lparr>content = comm_first, offset = 72\<rparr>\<rparr>))"
    by (simp add: loop_body_def iDnSize_fails len_comm_first new_Clip_def)
  have "Decode 6 \<lparr>content = comm_first, offset = 0\<rparr> =
      Some (Inr (?c2\<lparr>clip_r := Some \<lparr>content = comm_first, offset = 72\<rparr>\<rparr>))"
    by (simp add: Decode_def header_comm_first traverse_numeral p1 p2 p3 p4 p5 p6)
  then show ?thesis by (simp add: new_Clip_def)
qed

subsection \<open>ssnd_first\<close>

lemma len_ssnd_first: "length ssnd_first = 72"
  by (simp add: stream_defs)

lemma slices_ssnd_first:
  "take 4 ssnd_first = formID"
  "uint32_be (take 4 (drop 4 ssnd_first)) = 0x40"
  "take 4 (drop 8 ssnd_first) = aiffID"
  "take 4 (drop 12 ssnd_first) = ssndID"
  "uint32_be (take 4 (drop 16 ssnd_first)) = 26"
  "take 4 (drop 46 ssnd_first) = commID"
  "uint32_be (take 4 (drop 50 ssnd_first)) = 18"
  "uint16_be (take 2 (drop 54 ssnd_first)) = 1"
  "uint32_be (take 4 (drop 56 ssnd_first)) = 9"
  "uint16_be (take 2 (drop 60 ssnd_first)) = 16"
  "IeeeFloatToInt (drop 62 ssnd_first) = 44100"
  by (simp_all add: stream_defs id_defs field_defs)

lemma header_ssnd_first:
  "readHeaders new_Decoder \<lparr>content = ssnd_first, offset = 0\<rparr> =
     (None, new_Decoder\<lparr>ID := formID, Size := 0x40, Format := aiffID\<rparr>,
      \<lparr>content = ssnd_first, offset = 12\<rparr>)"
  using readHeaders_full [of "\<lparr>content = ssnd_first, offset = 0\<rparr>" new_Decoder]
  by (simp add: len_ssnd_first slices_ssnd_first)

lemma rewound_again: "loop_body rewound = Next rewound"
  by (simp add: loop_body_def rewound_def decoder_mono_def iDnSize_ok parseCommChunk_ok
      len_ssnd_first slices_ssnd_first ids_distinct Seek_current_def new_Decoder_def Let_def)

lemma ssnd_first_reaches_rewound:
  "Decode (Suc (Suc n)) \<lparr>content = ssnd_first, offset = 0\<rparr> = traverse n rewound"
proof -
  let ?d0 = "new_Decoder\<lparr>ID := formID, Size := 0x40, Format := aiffID\<rparr>"
  let ?s0 = "\<lparr>dec = ?d0, rd = \<lparr>content = ssnd_first, offset = 12\<rparr>, clip = new_Clip,
              rewindBytes = 0\<rparr>"
  let ?s1 = "\<lparr>dec = ?d0, rd = \<lparr>content = ssnd_first, offset = 46\<rparr>,
              clip = new_Clip\<lparr>clip_size := 26\<rparr>, rewindBytes = 26\<rparr>"
  have p1: "loop_body ?s0 = Next ?s1"
    by (simp add: loop_body_def iDnSize_ok len_ssnd_first jumpTo_def
        slices_ssnd_first ids_distinct new_Clip_def Let_def)
  have p2: "loop_body ?s1 = Next rewound"
    by (simp add: loop_body_def rewound_def decoder_mono_def iDnSize_ok parseCommChunk_ok
        len_ssnd_first slices_ssnd_first ids_distinct Seek_current_def new_Decoder_def
        new_Clip_def Let_def)
  show ?thesis
    by (simp add: Decode_def header_ssnd_first p1 p2)
qed

lemma Decode_ssnd_first_never_returns:
  "Decode n \<lparr>content = ssnd_first, offset = 0\<rparr> = None"
proof (cases n)
  case 0
  then show ?thesis by (simp add: Decode_def header_ssnd_first)
next
  case (Suc m)
  show ?thesis
  proof (cases m)
    case 0
    let ?d0 = "new_Decoder\<lparr>ID := formID, Size := 0x40, Format := aiffID\<rparr>"
    let ?s0 = "\<lparr>dec = ?d0, rd = \<lparr>content = ssnd_first, offset = 12\<rparr>, clip = new_Clip,
                rewindBytes = 0\<rparr>"
    have "\<exists>s'. loop_body ?s0 = Next s'"
      by (simp add: loop_body_def iDnSize_ok len_ssnd_first jumpTo_def
          slices_ssnd_first ids_distinct new_Clip_def Let_def)
    with 0 Suc show ?thesis by (auto simp add: Decode_def header_ssnd_first)
  next
    case (Suc k)
    with \<open>n = Suc m\<close> show ?thesis
      by (simp only: ssnd_first_reaches_rewound traverse_cycle [OF rewound_again])
  qed
qed

subsection \<open>truncated_comm\<close>

lemma len_truncated_comm: "length truncated_comm = 24"
  by (simp add: stream_defs)

lemma slices_truncated_comm:
  "take 4 truncated_comm = formID"
  "uint32_be (take 4 (drop 4 truncated_comm)) = 0x1E"
  "take 4 (drop 8 truncated_comm) = aiffID"
  "take 4 (drop 12 truncated_comm) = commID"
  "uint32_be (take 4 (drop 16 truncated_comm)) = 18"
  "uint16_be (take 2 (drop 20 truncated_comm)) = 2"
  by (simp_all add: stream_defs id_defs field_defs)

lemma header_truncated_comm:
  "readHeaders new_Decoder \<lparr>content = truncated_comm, offset = 0\<rparr> =
     (None, new_Decoder\<lparr>ID := formID, Size := 0x1E, Format := aiffID\<rparr>,
      \<lparr>content = truncated_comm, offset = 12\<rparr>)"
  using readHeaders_full [of "\<lparr>content = truncated_comm, offset = 0\<rparr>" new_Decoder]
  by (simp add: len_truncated_comm slices_truncated_comm)

lemma parse_truncated_comm:
  "parseCommChunk 18 (new_Decoder\<lparr>ID := formID, Size := 0x1E, Format := aiffID\<rparr>)
       \<lparr>content = truncated_comm, offset = 20\<rparr> =
     (Some (ParseFailed ''num of sample frames failed to parse'' ErrUnexpectedEOF),
      new_Decoder\<lparr>ID := formID, Size := 0x1E, Format := aiffID, commSize := 18, NumChans := 2\<rparr>,
      \<lparr>content = truncated_comm, offset = 24\<rparr>)"
proof -
  have 1: "binary_Read 2 \<lparr>content = truncated_comm, offset = 20\<rparr> =
      (Inr (take 2 (drop 20 truncated_comm)), \<lparr>content = truncated_comm, offset = 22\<rparr>)"
    by (simp add: binary_Read_ok len_truncated_comm)
  have 2: "binary_Read 4 \<lparr>content = truncated_comm, offset = 22\<rparr> =
      (Inl ErrUnexpectedEOF, \<lparr>content = truncated_comm, offset = 24\<rparr>)"
    by (simp add: binary_Read_def len_truncated_comm)
  show ?thesis
    by (simp add: parseCommChunk_def 1 2 slices_truncated_comm Let_def)
qed

lemma Decode_truncated_comm:
  "Decode 2 \<lparr>content = truncated_comm, offset = 0\<rparr> =
     Some (Inr \<lparr>clip_r = Some \<lparr>content = truncated_comm, offset = 24\<rparr>, channels = 2,
                 bitDepth = 0, sampleRate = 0, clip_size = 0\<rparr>)"
proof -
  let ?d0 = "new_Decoder\<lparr>ID := formID, Size := 0x1E, Format := aiffID\<rparr>"
  let ?d1 = "?d0\<lparr>commSize := 18, NumChans := 2\<rparr>"
  let ?c1 = "new_Clip\<lparr>channels := 2, bitDepth := 0, sampleRate := 0\<rparr>"
  let ?s0 = "\<lparr>dec = ?d0, rd = \<lparr>content = truncated_comm, offset = 12\<rparr>, clip = new_Clip,
              rewindBytes = 0\<rparr>"
  let ?s1 = "\<lparr>dec = ?d1, rd = \<lparr>content = truncated_comm, offset = 24\<rparr>, clip = ?c1,
              rewindBytes = 0\<rparr>"
  have p1: "loop_body ?s0 = Next ?s1"
    by (simp add: loop_body_def iDnSize_ok parse_truncated_comm len_truncated_comm
        slices_truncated_comm new_Decoder_sel ids_distinct Let_def)
  have p2: "loop_body ?s1 =
      Return (Inr (?c1\<lparr>clip_r := Some \<lparr>content = truncated_comm, offset = 24\<rparr>\<rparr>))"
    by (simp add: loop_body_def iDnSize_fails len_truncated_comm)
  have "Decode 2 \<lparr>content = truncated_comm, offset = 0\<rparr> =
      Some (Inr (?c1\<lparr>clip_r := Some \<lparr>content = truncated_comm, offset = 24\<rparr>\<rparr>))"
    by (simp add: Decode_def header_truncated_comm traverse_numeral traverse_one p1 p2)
  then show ?thesis by (simp add: new_Clip_def)
qed


subsection \<open>stray_tail\<close>

lemma len_stray_tail: "length stray_tail = 40"
  by (simp add: stream_defs)

lemma slices_stray_tail:
  "take 4 stray_tail = formID"
  "uint32_be (take 4 (drop 4 stray_tail)) = 0x20"
  "take 4 (drop 8 stray_tail) = aiffID"
  "take 4 (drop 12 stray_tail) = commID"
  "uint32_be (take 4 (drop 16 stray_tail)) = 18"
  "uint16_be (take 2 (drop 20 stray_tail)) = 2"
  "uint32_be (take 4 (drop 22 stray_tail)) = 2"
  "uint16_be (take 2 (drop 26 stray_tail)) = 16"
  "IeeeFloatToInt (take 10 (drop 28 stray_tail)) = 44100"
  by (simp_all add: stream_defs id_defs field_defs)

lemma header_stray_tail:
  "readHeaders new_Decoder \<lparr>content = stray_tail, offset = 0\<rparr> =
     (None, new_Decoder\<lparr>ID := formID, Size := 0x20, Format := aiffID\<rparr>,
      \<lparr>content = stray_tail, offset = 12\<rparr>)"
  using readHeaders_full [of "\<lparr>content = stray_tail, offset = 0\<rparr>" new_Decoder]
  by (simp add: len_stray_tail slices_stray_tail)

lemma iDnSize_stray_tail:
  "iDnSize \<lparr>content = stray_tail, offset = 38\<rparr> =
     ((replicate 4 0, 0, Some ErrUnexpectedEOF), \<lparr>content = stray_tail, offset = 40\<rparr>)"
  by (simp add: iDnSize_fails len_stray_tail)

lemma Decode_stray_tail:
  "Decode 2 \<lparr>content = stray_tail, offset = 0\<rparr> =
     Some (Inr \<lparr>clip_r = Some \<lparr>content = stray_tail, offset = 40\<rparr>, channels = 2,
                 bitDepth = 16, sampleRate = 44100, clip_size = 0\<rparr>)"
proof -
  let ?d0 = "new_Decoder\<lparr>ID := formID, Size := 0x20, Format := aiffID\<rparr>"
  let ?d1 = "?d0\<lparr>commSize := 18, NumChans := 2, NumSampleFrames := 2, SampleSize := 16,
               SampleRate := 44100\<rparr>"
  let ?c1 = "new_Clip\<lparr>channels := 2, bitDepth := 16, sampleRate := 44100\<rparr>"
  let ?s0 = "\<lparr>dec = ?d0, rd = \<lparr>content = stray_tail, offset = 12\<rparr>, clip = new_Clip,
              rewindBytes = 0\<rparr>"
  let ?s1 = "\<lparr>dec = ?d1, rd = \<lparr>content = stray_tail, offset = 38\<rparr>, clip = ?c1,
              rewindBytes = 0\<rparr>"
  have p1: "loop_body ?s0 = Next ?s1"
    by (simp add: loop_body_def iDnSize_ok parseCommChunk_ok len_stray_tail
        slices_stray_tail ids_distinct new_Decoder_def new_Clip_def Let_def)
  have p2: "loop_body ?s1 =
      Return (Inr (?c1\<lparr>clip_r := Some \<lparr>content = stray_tail, offset = 40\<rparr>\<rparr>))"
    by (simp add: loop_body_def iDnSize_stray_tail)
  have "Decode 2 \<lparr>content = stray_tail, offset = 0\<rparr> =
      Some (Inr (?c1\<lparr>clip_r := Some \<lparr>content = stray_tail, offset = 40\<rparr>\<rparr>))"
    by (simp add: Decode_def header_stray_tail traverse_numeral traverse_one p1 p2)
  then show ?thesis by (simp add: new_Clip_def)
qed

subsection \<open>The channel\<close>

text \<open>
  \<^verbatim>\<open>dispatchToChan\<close> sends the chunk it is given when the decoder has a channel, and skips
  its payload when it has none. \<^verbatim>\<open>Decode\<close> is the only function that runs the loop, and
  it builds its decoder without a channel (none of \<^verbatim>\<open>readHeaders\<close> and
  \<^verbatim>\<open>parseCommChunk\<close> sets one), so no run of \<^verbatim>\<open>Decode\<close> sends a chunk.
\<close>

lemma parseAifcTail_Chan: "Chan (fst (snd (parseAifcTail d r))) = Chan d"
  by (simp add: parseAifcTail_def Let_def split: prod.splits sum.splits)

lemma parseCommChunk_Chan: "Chan (fst (snd (parseCommChunk sz d r))) = Chan d"
  by (simp add: parseCommChunk_def Let_def parseAifcTail_Chan split: prod.splits sum.splits)

lemma readHeaders_Chan: "Chan (fst (snd (readHeaders d r))) = Chan d"
  by (simp add: readHeaders_def Let_def split: prod.splits sum.splits)

lemma parseCommChunk_ChanD: "parseCommChunk sz d r = (e, d1, r2) \<Longrightarrow> Chan d1 = Chan d"
  using parseCommChunk_Chan [of sz d r] by simp

lemma dispatchToChan_no_channel:
  "Chan d = None \<Longrightarrow>
   dispatchToChan id4 sz d r = (fst (jumpTo (uint sz) r), snd (jumpTo (uint sz) r), [])"
  by (simp add: dispatchToChan_def split: prod.splits option.splits)

lemma dispatchToChan_channel:
  "Chan d = Some consume \<Longrightarrow>
   dispatchToChan id4 sz d r = (None, consume id4 (uint sz) r, [Chunk id4 (uint sz) r])"
  by (simp add: dispatchToChan_def)

lemma loop_body_chan_no_channel:
  assumes "Chan (dec s) = None"
  shows "snd (loop_body_chan s) = []"
    and "loop_body_chan s = (Next s', sent) \<Longrightarrow> Chan (dec s') = None"
  using assms
  by (auto simp add: loop_body_chan_def dispatchToChan_no_channel Let_def
      split: prod.splits option.splits if_splits dest: parseCommChunk_ChanD)

lemma traverse_chan_no_channel:
  "Chan (dec s) = None \<Longrightarrow> traverse_chan n s = Some (res, sent) \<Longrightarrow> sent = []"
proof (induction n arbitrary: s res sent)
  case 0
  then show ?case by simp
next
  case (Suc n)
  obtain out first where lb: "loop_body_chan s = (out, first)" by (cases "loop_body_chan s")
  have first: "first = []" using loop_body_chan_no_channel(1) [OF Suc.prems(1)] lb by simp
  show ?case
  proof (cases out)
    case (Return x)
    with lb first Suc.prems(2) show ?thesis by simp
  next
    case (Next s')
    with lb have ch: "Chan (dec s') = None"
      using loop_body_chan_no_channel(2) [OF Suc.prems(1)] by simp
    from Next lb Suc.prems(2) first obtain later where
      "traverse_chan n s' = Some (res, later)" "sent = later"
      by (auto split: option.splits)
    with Suc.IH [OF ch] show ?thesis by simp
  qed
qed

lemma Decode_chan_sends_nothing:
  "Decode_chan fuel r = Some (res, sent) \<Longrightarrow> sent = []"
proof -
  assume h: "Decode_chan fuel r = Some (res, sent)"
  obtain e d r1 where rh: "readHeaders new_Decoder r = (e, d, r1)"
    by (cases "readHeaders new_Decoder r")
  have ch: "Chan (dec \<lparr>dec = d, rd = r1, clip = new_Clip, rewindBytes = 0\<rparr>) = None"
    using readHeaders_Chan [of new_Decoder r] rh by (simp add: new_Decoder_sel)
  show ?thesis using h rh
    by (cases e) (auto simp add: Decode_chan_def dest: traverse_chan_no_channel [OF ch])
qed

lemma IDnSize_ok:
  assumes "offset r + 8 \<le> length (content r)"
  shows "IDnSize r = ((take 4 (drop (offset r) (content r)),
                       uint32_be (take 4 (drop (offset r + 4) (content r))), None),
                      r\<lparr>offset := offset r + 8\<rparr>)"
  using assms by (simp add: IDnSize_eq iDnSize_ok)

subsection \<open>comm_then_ssnd in the second revision\<close>

lemma traverse_chan_numeral:
  "traverse_chan (numeral k) s =
     (case loop_body_chan s of
        (Return res, sent) \<Rightarrow> Some (res, sent)
      | (Next s', sent) \<Rightarrow>
          (case traverse_chan (pred_numeral k) s' of
             None \<Rightarrow> None
           | Some (res, sent') \<Rightarrow> Some (res, sent @ sent')))"
  by (simp add: numeral_eq_Suc)

lemma traverse_chan_one:
  "traverse_chan 1 s =
     (case loop_body_chan s of
        (Return res, sent) \<Rightarrow> Some (res, sent)
      | (Next s', sent) \<Rightarrow> None)"
  by (simp split: prod.splits outcome.splits)

lemma Decode_chan_comm_then_ssnd:
  "Decode_chan 5 \<lparr>content = comm_then_ssnd, offset = 0\<rparr> =
     Some (Inr \<lparr>clip_r = Some \<lparr>content = comm_then_ssnd, offset = 62\<rparr>, channels = 2,
                 bitDepth = 16, sampleRate = 44100, clip_size = 16\<rparr>, [])"
proof -
  let ?d0 = "new_Decoder\<lparr>ID := formID, Size := 0x36, Format := aiffID\<rparr>"
  let ?d1 = "?d0\<lparr>commSize := 18, NumChans := 2, NumSampleFrames := 2, SampleSize := 16,
               SampleRate := 44100\<rparr>"
  let ?c1 = "new_Clip\<lparr>channels := 2, bitDepth := 16, sampleRate := 44100\<rparr>"
  let ?c2 = "?c1\<lparr>clip_size := 16\<rparr>"
  let ?s0 = "\<lparr>dec = ?d0, rd = \<lparr>content = comm_then_ssnd, offset = 12\<rparr>, clip = new_Clip,
              rewindBytes = 0\<rparr>"
  let ?s1 = "\<lparr>dec = ?d1, rd = \<lparr>content = comm_then_ssnd, offset = 38\<rparr>, clip = ?c1,
              rewindBytes = 0\<rparr>"
  let ?s2 = "\<lparr>dec = ?d1, rd = \<lparr>content = comm_then_ssnd, offset = 46\<rparr>, clip = ?c2,
              rewindBytes = 0\<rparr>"
  let ?s3 = "\<lparr>dec = ?d1, rd = \<lparr>content = comm_then_ssnd, offset = 54\<rparr>, clip = ?c2,
              rewindBytes = 0\<rparr>"
  let ?s4 = "\<lparr>dec = ?d1, rd = \<lparr>content = comm_then_ssnd, offset = 62\<rparr>, clip = ?c2,
              rewindBytes = 196612\<rparr>"
  have nochan: "Chan ?d1 = None" by (simp add: new_Decoder_sel)
  have p1: "loop_body_chan ?s0 = (Next ?s1, [])"
    by (simp add: loop_body_chan_def IDnSize_ok parseCommChunk_ok len_comm_then_ssnd
        slices_comm_then_ssnd ids_distinct new_Decoder_def new_Clip_def Let_def)
  have p2: "loop_body_chan ?s1 = (Next ?s2, [])"
    by (simp add: loop_body_chan_def IDnSize_ok len_comm_then_ssnd
        slices_comm_then_ssnd ids_distinct new_Clip_def Let_def)
  have p3: "loop_body_chan ?s2 = (Next ?s3, [])"
    by (simp add: loop_body_chan_def IDnSize_ok len_comm_then_ssnd jumpTo_def
        dispatchToChan_no_channel [OF nochan]
        slices_comm_then_ssnd ids_distinct new_Clip_def Let_def)
  have p4: "loop_body_chan ?s3 = (Next ?s4, [])"
    by (simp add: loop_body_chan_def IDnSize_ok len_comm_then_ssnd jumpTo_def
        dispatchToChan_no_channel [OF nochan]
        slices_comm_then_ssnd ids_distinct new_Clip_def Let_def)
  have p5: "loop_body_chan ?s4 =
      (Return (Inr (?c2\<lparr>clip_r := Some \<lparr>content = comm_then_ssnd, offset = 62\<rparr>\<rparr>)), [])"
    by (simp add: loop_body_chan_def IDnSize_eq iDnSize_fails len_comm_then_ssnd)
  have "Decode_chan 5 \<lparr>content = comm_then_ssnd, offset = 0\<rparr> =
      Some (Inr (?c2\<lparr>clip_r := Some \<lparr>content = comm_then_ssnd, offset = 62\<rparr>\<rparr>), [])"
    by (simp add: Decode_chan_def header_comm_then_ssnd traverse_chan_numeral traverse_chan_one
        p1 p2 p3 p4 p5)
  then show ?thesis by (simp add: new_Clip_def)
qed

section \<open>Decode: the traversal loop\<close>

text \<open>
  Claim C1. For a well-formed stream with COMM before SSND, \<^verbatim>\<open>Decode\<close> should return the
  clip described by COMM and SSND and stop at the SSND chunk, the reader at the start of the
  SSND payload. The code does not stop there: the \<^verbatim>\<open>break\<close> of the SSND case leaves the
  \<^verbatim>\<open>switch\<close> only, and the loop goes on reading the payload as chunk headers. On
  \<open>comm_then_ssnd\<close> the samples are read as a chunk of 196612 bytes and \<^verbatim>\<open>Decode\<close> returns
  \<^verbatim>\<open>io.EOF\<close> and no clip; on \<open>comm_first\<close> it returns the clip with the reader at the end
  of the stream (offset 72), while the SSND payload starts at offset 46. The second
  revision drops the error of the skip and returns the clip of \<open>comm_then_ssnd\<close> with the
  reader at the end of the stream (offset 62) as well.
\<close>

theorem Decode_does_not_stop_at_SSND:
  "Decode 4 \<lparr>content = comm_then_ssnd, offset = 0\<rparr> = Some (Inl EOF)
   \<and> Decode 6 \<lparr>content = comm_first, offset = 0\<rparr> =
       Some (Inr \<lparr>clip_r = Some \<lparr>content = comm_first, offset = 72\<rparr>, channels = 1,
                   bitDepth = 16, sampleRate = 44100, clip_size = 26\<rparr>)
   \<and> take 4 (drop 38 comm_first) = ssndID \<and> length comm_first = 72
   \<and> Decode_chan 5 \<lparr>content = comm_then_ssnd, offset = 0\<rparr> =
       Some (Inr \<lparr>clip_r = Some \<lparr>content = comm_then_ssnd, offset = 62\<rparr>, channels = 2,
                   bitDepth = 16, sampleRate = 44100, clip_size = 16\<rparr>, [])
   \<and> take 4 (drop 38 comm_then_ssnd) = ssndID \<and> length comm_then_ssnd = 62"
  by (simp only: Decode_comm_then_ssnd Decode_comm_first slices_comm_first len_comm_first
      Decode_chan_comm_then_ssnd slices_comm_then_ssnd len_comm_then_ssnd)

text \<open>
  Claim C2. For a well-formed stream with SSND before COMM, \<^verbatim>\<open>Decode\<close> should give the
  result it gives for the same content with COMM first, the reader moved back onto the SSND
  payload. On \<open>ssnd_first\<close> (the chunks of \<open>comm_first\<close> in the other order) it never
  returns, whatever the fuel: moving back by \<^verbatim>\<open>rewindBytes\<close> = 26 from the end of the COMM
  chunk (offset 72) lands on the header of the COMM chunk (offset 46), not on the SSND
  payload (offset 20), and the loop parses the COMM chunk and moves back again, forever.
  On \<open>comm_first\<close> it returns a clip.
\<close>

theorem Decode_SSND_first_never_returns:
  "(\<forall>n. Decode n \<lparr>content = ssnd_first, offset = 0\<rparr> = None)
   \<and> loop_body
        \<lparr>dec = new_Decoder\<lparr>ID := formID, Size := 0x40, Format := aiffID\<rparr>,
         rd = \<lparr>content = ssnd_first, offset = 46\<rparr>,
         clip = new_Clip\<lparr>clip_size := 26\<rparr>, rewindBytes = 26\<rparr>
       = Next \<lparr>dec = decoder_mono, rd = \<lparr>content = ssnd_first, offset = 46\<rparr>,
               clip = \<lparr>clip_r = None, channels = 1, bitDepth = 16, sampleRate = 44100,
                        clip_size = 26\<rparr>,
               rewindBytes = 26\<rparr>
   \<and> take 4 (drop 12 ssnd_first) = ssndID
   \<and> Decode 6 \<lparr>content = comm_first, offset = 0\<rparr> =
       Some (Inr \<lparr>clip_r = Some \<lparr>content = comm_first, offset = 72\<rparr>, channels = 1,
                   bitDepth = 16, sampleRate = 44100, clip_size = 26\<rparr>)"
proof (intro conjI allI)
  fix n
  show "Decode n \<lparr>content = ssnd_first, offset = 0\<rparr> = None"
    by (rule Decode_ssnd_first_never_returns)
next
  show "loop_body
        \<lparr>dec = new_Decoder\<lparr>ID := formID, Size := 0x40, Format := aiffID\<rparr>,
         rd = \<lparr>content = ssnd_first, offset = 46\<rparr>,
         clip = new_Clip\<lparr>clip_size := 26\<rparr>, rewindBytes = 26\<rparr>
       = Next \<lparr>dec = decoder_mono, rd = \<lparr>content = ssnd_first, offset = 46\<rparr>,
               clip = \<lparr>clip_r = None, channels = 1, bitDepth = 16, sampleRate = 44100,
                        clip_size = 26\<rparr>,
               rewindBytes = 26\<rparr>"
    by (simp add: loop_body_def decoder_mono_def iDnSize_ok parseCommChunk_ok
        len_ssnd_first slices_ssnd_first ids_distinct Seek_current_def new_Decoder_def
        new_Clip_def Let_def)
next
  show "take 4 (drop 12 ssnd_first) = ssndID" by (rule slices_ssnd_first)
next
  show "Decode 6 \<lparr>content = comm_first, offset = 0\<rparr> =
       Some (Inr \<lparr>clip_r = Some \<lparr>content = comm_first, offset = 72\<rparr>, channels = 1,
                   bitDepth = 16, sampleRate = 44100, clip_size = 26\<rparr>)"
    by (rule Decode_comm_first)
qed

text \<open>
  Claim C5. Every parse or I/O error met during the traversal should abort \<^verbatim>\<open>Decode\<close> and
  reach the caller, end of stream apart. On \<open>truncated_comm\<close> the COMM parser fails on the
  frame count, and \<^verbatim>\<open>Decode\<close> drops that error and returns a clip with no error; on
  \<open>stray_tail\<close> the chunk-header read fails with \<^verbatim>\<open>io.ErrUnexpectedEOF\<close>, which is not
  end of stream, and \<^verbatim>\<open>Decode\<close> again returns a clip with no error.
\<close>

theorem Decode_swallows_errors:
  "parseCommChunk 18 (new_Decoder\<lparr>ID := formID, Size := 0x1E, Format := aiffID\<rparr>)
       \<lparr>content = truncated_comm, offset = 20\<rparr> =
     (Some (ParseFailed ''num of sample frames failed to parse'' ErrUnexpectedEOF),
      new_Decoder\<lparr>ID := formID, Size := 0x1E, Format := aiffID, commSize := 18, NumChans := 2\<rparr>,
      \<lparr>content = truncated_comm, offset = 24\<rparr>)
   \<and> Decode 2 \<lparr>content = truncated_comm, offset = 0\<rparr> =
       Some (Inr \<lparr>clip_r = Some \<lparr>content = truncated_comm, offset = 24\<rparr>, channels = 2,
                   bitDepth = 0, sampleRate = 0, clip_size = 0\<rparr>)
   \<and> iDnSize \<lparr>content = stray_tail, offset = 38\<rparr> =
       ((replicate 4 0, 0, Some ErrUnexpectedEOF), \<lparr>content = stray_tail, offset = 40\<rparr>)
   \<and> Decode 2 \<lparr>content = stray_tail, offset = 0\<rparr> =
       Some (Inr \<lparr>clip_r = Some \<lparr>content = stray_tail, offset = 40\<rparr>, channels = 2,
                   bitDepth = 16, sampleRate = 44100, clip_size = 0\<rparr>)"
  by (simp only: parse_truncated_comm Decode_truncated_comm iDnSize_stray_tail Decode_stray_tail)

section \<open>Duration\<close>



end
